theory Spec2Isabelle
  imports Main "HOL-Library.AList"
begin

section \<open>The dock of Ax-Shell: matching, reconciliation, occlusion, pinned configuration\<close>

text \<open>
  A shallow embedding of \<^verbatim>\<open>src/modules/dock.py\<close>. Python strings are modelled as
  \<^typ>\<open>string\<close> over ASCII, \<^verbatim>\<open>None\<close> as \<^term>\<open>None\<close>, a \<^verbatim>\<open>dict\<close> as an
  association list in insertion order, an uncaught exception as the left summand of a
  result. Rendering (pictures, tooltips, GTK widgets) is left out, except that the icon
  lookup of a button can raise: a button is the three attributes the code stores on it.
\<close>

subsection \<open>Python string operations\<close>

text \<open>\<^verbatim>\<open>str.lower()\<close> on ASCII: the letters \<^verbatim>\<open>A\<close> to \<^verbatim>\<open>Z\<close> move to \<^verbatim>\<open>a\<close> to \<^verbatim>\<open>z\<close>.\<close>

definition lower_char :: "char \<Rightarrow> char" where
  "lower_char c =
     (case map_of (zip ''ABCDEFGHIJKLMNOPQRSTUVWXYZ'' ''abcdefghijklmnopqrstuvwxyz'') c of
        Some d \<Rightarrow> d
      | None \<Rightarrow> c)"

definition lower :: "string \<Rightarrow> string" where
  "lower s = map lower_char s"

text \<open>\<^verbatim>\<open>s.endswith(x)\<close>.\<close>

definition endswith :: "string \<Rightarrow> string \<Rightarrow> bool" where
  "endswith s x = (length x \<le> length s \<and> drop (length s - length x) s = x)"

text \<open>\<^verbatim>\<open>s.startswith(x)\<close> and the substring test \<^verbatim>\<open>x in s\<close>.\<close>

definition startswith :: "string \<Rightarrow> string \<Rightarrow> bool" where
  "startswith s x = (take (length x) s = x)"

fun contains :: "string \<Rightarrow> string \<Rightarrow> bool" where
  "contains [] x = (x = [])"
| "contains (c # s) x = (startswith (c # s) x \<or> contains s x)"

subsection \<open>Window-class normalisation\<close>

text \<open>
  \<^verbatim>\<open>
  def _normalize_window_class(self, class_name):
      if not class_name:
          return ""
      normalized = class_name.lower()
      suffixes = [".bin", ".exe", ".so", "-bin", "-gtk"]
      for suffix in suffixes:
          if normalized.endswith(suffix):
              normalized = normalized[:-len(suffix)]
      return normalized
  \<close>
  The loop has no \<^verbatim>\<open>break\<close>: each suffix is tried once, in order, on what the
  earlier ones left.
\<close>

definition suffixes :: "string list" where
  "suffixes = [''.bin'', ''.exe'', ''.so'', ''-bin'', ''-gtk'']"

definition strip_suffix :: "string \<Rightarrow> string \<Rightarrow> string" where
  "strip_suffix normalized suffix =
     (if endswith normalized suffix
      then take (length normalized - length suffix) normalized
      else normalized)"

definition normalize_window_class :: "string \<Rightarrow> string" where
  "normalize_window_class class_name =
     (if class_name = [] then [] else foldl strip_suffix (lower class_name) suffixes)"

subsection \<open>Errors\<close>

text \<open>The exceptions that leave the modelled functions uncaught.\<close>

datatype error =
  IndexError | KeyError | TypeError | ZeroDivisionError | IpcError | UnicodeDecodeError

subsection \<open>More string operations\<close>

text \<open>
  ASCII white space as \<^verbatim>\<open>str.split()\<close> and \<^verbatim>\<open>str.strip()\<close> see it: space, tab, line
  feed, vertical tab, form feed, carriage return and the four separators
  \<^verbatim>\<open>0x1c\<close> to \<^verbatim>\<open>0x1f\<close>.
\<close>

definition is_space :: "char \<Rightarrow> bool" where
  "is_space c = (c \<in> set [CHR '' '', CHR 0x09, CHR 0x0A, CHR 0x0B, CHR 0x0C, CHR 0x0D,
                            CHR 0x1C, CHR 0x1D, CHR 0x1E, CHR 0x1F])"

text \<open>\<^verbatim>\<open>s.strip()\<close>.\<close>

definition strip :: "string \<Rightarrow> string" where
  "strip s = rev (dropWhile is_space (rev (dropWhile is_space s)))"

text \<open>\<^verbatim>\<open>s.split()\<close>: the maximal runs of characters that are not white space.\<close>

definition first_token :: "string \<Rightarrow> string" where
  "first_token s = takeWhile (\<lambda>c. \<not> is_space c) s"

function split_ws :: "string \<Rightarrow> string list" where
  "split_ws s =
     (let t = dropWhile is_space s in
      if t = [] then [] else first_token t # split_ws (dropWhile (\<lambda>c. \<not> is_space c) t))"
  by pat_completeness auto
termination
proof (relation "measure length")
  show "wf (measure length)" by simp
next
  fix s t :: string
  assume t: "t = dropWhile is_space s" and ne: "t \<noteq> []"
  have "\<not> is_space (hd t)" using t ne hd_dropWhile by metis
  then have "length (dropWhile (\<lambda>c. \<not> is_space c) t) < length t"
    using ne by (cases t) (auto simp: le_imp_less_Suc length_dropWhile_le)
  also have "\<dots> \<le> length s" using t by (simp add: length_dropWhile_le)
  finally show "(dropWhile (\<lambda>c. \<not> is_space c) t, s) \<in> measure length" by simp
qed

declare split_ws.simps [simp del]

text \<open>\<^verbatim>\<open>s.split('/')[-1]\<close>: what follows the last slash.\<close>

definition basename :: "string \<Rightarrow> string" where
  "basename s = rev (takeWhile (\<lambda>c. c \<noteq> CHR ''/'') (rev s))"

text \<open>\<^verbatim>\<open>s.split(sep)[0]\<close>: what precedes the first occurrence of \<^verbatim>\<open>sep\<close>.\<close>

fun before_sep :: "string \<Rightarrow> string \<Rightarrow> string" where
  "before_sep sep [] = []"
| "before_sep sep (c # s) = (if startswith (c # s) sep then [] else c # before_sep sep s)"

subsection \<open>Application descriptors and pinned records\<close>

text \<open>
  A desktop application of the catalog (\<^verbatim>\<open>get_desktop_applications()\<close>), with the five
  attributes the dock reads; each is a string or \<^verbatim>\<open>None\<close>.
\<close>

record desktop_app =
  name :: "string option"
  display_name :: "string option"
  window_class :: "string option"
  executable :: "string option"
  command_line :: "string option"

text \<open>
  An application identifier is a bare string or a \<^verbatim>\<open>dict\<close> from key names to strings or
  \<^verbatim>\<open>None\<close>, as the persisted layout has it.
\<close>

type_synonym app_dict = "(string \<times> string option) list"

datatype app_identifier = Bare string | Structured app_dict

text \<open>\<^verbatim>\<open>key in d and d[key]\<close>: the value when the key is present with a non-empty string.\<close>

definition truthy_value :: "app_dict \<Rightarrow> string \<Rightarrow> string option" where
  "truthy_value d key =
     (case map_of d key of
        Some (Some v) \<Rightarrow> if v = [] then None else Some v
      | _ \<Rightarrow> None)"

text \<open>The dictionary the code builds from a descriptor, in \<^verbatim>\<open>_migrate_config\<close>,
  \<^verbatim>\<open>_create_app_identifier\<close> and \<^verbatim>\<open>update_pinned_apps\<close>.\<close>

definition app_data_of :: "desktop_app \<Rightarrow> app_dict" where
  "app_data_of app =
     [(''name'', name app),
      (''display_name'', display_name app),
      (''window_class'', window_class app),
      (''executable'', executable app),
      (''command_line'', command_line app)]"

subsection \<open>The identifier index\<close>

text \<open>The part of the dock object that matching reads: the catalog and the index.\<close>

record dock =
  all_apps :: "desktop_app list"
  app_identifiers :: "(string \<times> desktop_app) list"

text \<open>\<^verbatim>\<open>if v: identifiers[f(v)] = app\<close>.\<close>

definition register :: "string option \<Rightarrow> (string \<Rightarrow> string) \<Rightarrow> desktop_app \<Rightarrow>
    (string \<times> desktop_app) list \<Rightarrow> (string \<times> desktop_app) list" where
  "register v f app identifiers =
     (case v of
        None \<Rightarrow> identifiers
      | Some s \<Rightarrow> if s = [] then identifiers else AList.update (f s) app identifiers)"

text \<open>
  One round of the loop of \<^verbatim>\<open>_build_app_identifiers_map\<close>. The command line is indexed
  by \<^verbatim>\<open>app.command_line.split()[0].split('/')[-1].lower()\<close>, which raises IndexError on
  a command line of white space only.
\<close>

definition register_app :: "(string \<times> desktop_app) list \<Rightarrow> desktop_app \<Rightarrow>
    error + (string \<times> desktop_app) list" where
  "register_app identifiers app =
     (let ids1 = register (name app) lower app identifiers;
          ids2 = register (display_name app) lower app ids1;
          ids3 = register (window_class app) lower app ids2;
          ids4 = register (executable app) (\<lambda>s. lower (basename s)) app ids3
      in case command_line app of
           None \<Rightarrow> Inr ids4
         | Some cl \<Rightarrow>
             if cl = [] then Inr ids4
             else (case split_ws cl of
                     [] \<Rightarrow> Inl IndexError
                   | tok # _ \<Rightarrow> Inr (AList.update (lower (basename tok)) app ids4)))"

fun register_apps :: "(string \<times> desktop_app) list \<Rightarrow> desktop_app list \<Rightarrow>
    error + (string \<times> desktop_app) list" where
  "register_apps identifiers [] = Inr identifiers"
| "register_apps identifiers (app # apps) =
     (case register_app identifiers app of
        Inl e \<Rightarrow> Inl e
      | Inr identifiers' \<Rightarrow> register_apps identifiers' apps)"

definition build_app_identifiers_map :: "desktop_app list \<Rightarrow> error + (string \<times> desktop_app) list" where
  "build_app_identifiers_map apps = register_apps [] apps"

text \<open>\<^verbatim>\<open>update_app_map\<close>: the catalog is read again and the index rebuilt.\<close>

definition update_app_map :: "desktop_app list \<Rightarrow> error + dock" where
  "update_app_map catalog =
     (case build_app_identifiers_map catalog of
        Inl e \<Rightarrow> Inl e
      | Inr identifiers \<Rightarrow> Inr \<lparr>all_apps = catalog, app_identifiers = identifiers\<rparr>)"

subsection \<open>Resolving an identifier to a descriptor\<close>

text \<open>The exact match of \<^verbatim>\<open>find_app_by_key\<close>: a lookup in the index.\<close>

definition exact_match :: "dock \<Rightarrow> string \<Rightarrow> desktop_app option" where
  "exact_match self normalized_id = map_of (app_identifiers self) normalized_id"

text \<open>\<^verbatim>\<open>app.f and normalized_id in app.f.lower()\<close>.\<close>

definition field_contains :: "string option \<Rightarrow> string \<Rightarrow> bool" where
  "field_contains v normalized_id =
     (case v of None \<Rightarrow> False | Some s \<Rightarrow> s \<noteq> [] \<and> contains (lower s) normalized_id)"

definition fuzzy_hit :: "string \<Rightarrow> desktop_app \<Rightarrow> bool" where
  "fuzzy_hit normalized_id app =
     (field_contains (name app) normalized_id \<or>
      field_contains (display_name app) normalized_id \<or>
      field_contains (window_class app) normalized_id \<or>
      field_contains (executable app) normalized_id \<or>
      field_contains (command_line app) normalized_id)"

text \<open>The fuzzy match: the first descriptor of the catalog one of whose fields contains
  the key.\<close>

definition fuzzy_match :: "dock \<Rightarrow> string \<Rightarrow> desktop_app option" where
  "fuzzy_match self normalized_id = List.find (fuzzy_hit normalized_id) (all_apps self)"

definition find_app_by_key :: "dock \<Rightarrow> string \<Rightarrow> desktop_app option" where
  "find_app_by_key self key_value =
     (if key_value = [] then None
      else let normalized_id = lower key_value in
        case exact_match self normalized_id of
          Some app \<Rightarrow> Some app
        | None \<Rightarrow> fuzzy_match self normalized_id)"

definition priority_keys :: "string list" where
  "priority_keys = [''window_class'', ''executable'', ''command_line'', ''name'', ''display_name'']"

text \<open>The loop of \<^verbatim>\<open>find_app\<close> over the keys of a dictionary.\<close>

fun find_app_keys :: "dock \<Rightarrow> app_dict \<Rightarrow> string list \<Rightarrow> desktop_app option" where
  "find_app_keys self d [] = None"
| "find_app_keys self d (key # keys) =
     (case truthy_value d key of
        None \<Rightarrow> find_app_keys self d keys
      | Some v \<Rightarrow>
          (case find_app_by_key self v of
             Some app \<Rightarrow> Some app
           | None \<Rightarrow> find_app_keys self d keys))"

fun find_app :: "dock \<Rightarrow> app_identifier \<Rightarrow> desktop_app option" where
  "find_app self (Bare s) = (if s = [] then None else find_app_by_key self s)"
| "find_app self (Structured d) = (if d = [] then None else find_app_keys self d priority_keys)"

text \<open>The values \<^verbatim>\<open>app_identifier[key]\<close> that pass the test of the loop, in the order of
  the loop.\<close>

definition key_values :: "app_dict \<Rightarrow> string list" where
  "key_values d = List.map_filter (truthy_value d) priority_keys"

text \<open>A catalog of two applications, and the dock object \<^verbatim>\<open>update_app_map\<close> makes of it.\<close>

definition codeblocks :: desktop_app where
  "codeblocks = \<lparr>name = Some ''codeblocks'', display_name = Some ''Code::Blocks IDE'',
     window_class = None, executable = Some ''/usr/bin/codeblocks'',
     command_line = Some ''codeblocks %F''\<rparr>"

definition code_oss :: desktop_app where
  "code_oss = \<lparr>name = Some ''code-oss'', display_name = Some ''Code - OSS'',
     window_class = Some ''code-oss'', executable = Some ''/usr/bin/code-oss'',
     command_line = Some ''code-oss %F''\<rparr>"

definition code_dock :: dock where
  "code_dock = \<lparr>all_apps = [codeblocks, code_oss],
     app_identifiers = [(''codeblocks'', codeblocks), (''code::blocks ide'', codeblocks),
       (''code-oss'', code_oss), (''code - oss'', code_oss)]\<rparr>"

subsection \<open>Compositor queries\<close>

text \<open>
  A window record of the compositor's \<^verbatim>\<open>j/clients\<close> reply, with the keys the dock reads.
  A key read with \<^verbatim>\<open>.get(key, "")\<close> is the empty string when it is absent.
\<close>

record client =
  address :: string
  initialClass :: string
  class' :: string
  title :: string

text \<open>
  What \<^verbatim>\<open>json.loads(self.conn.send_command(cmd).reply.decode())\<close> comes to: the call
  to the socket raises (\<^verbatim>\<open>send_command\<close> belongs to the Fabric library, and whether it
  can is not settled here: the case is there for a library that does), or the reply is
  not UTF-8 and \<^verbatim>\<open>decode\<close> raises UnicodeDecodeError, or the text is not JSON and
  \<^verbatim>\<open>json.loads\<close> raises JSONDecodeError, or the reply is parsed.
\<close>

datatype 'a query = SendRaises | ReplyNotUtf8 | ReplyNotJson | Reply 'a

text \<open>
  \<^verbatim>\<open>
  def get_clients(self):
      try:
          reply = self.conn.send_command("j/clients").reply.decode()
          return json.loads(reply)
      except json.JSONDecodeError:
          return []
  \<close>
  The handler names JSONDecodeError alone; any other exception leaves the function.
\<close>

fun get_clients :: "client list query \<Rightarrow> error + client list" where
  "get_clients SendRaises = Inl IpcError"
| "get_clients ReplyNotUtf8 = Inl UnicodeDecodeError"
| "get_clients ReplyNotJson = Inr []"
| "get_clients (Reply clients) = Inr clients"

text \<open>\<^verbatim>\<open>get_focused\<close>: the key \<^verbatim>\<open>address\<close> of the active window, or the empty string.\<close>

fun get_focused :: "string option query \<Rightarrow> error + string" where
  "get_focused SendRaises = Inl IpcError"
| "get_focused ReplyNotUtf8 = Inl UnicodeDecodeError"
| "get_focused ReplyNotJson = Inr []"
| "get_focused (Reply a) = Inr (case a of None \<Rightarrow> [] | Some addr \<Rightarrow> addr)"

subsection \<open>Grouping the windows\<close>

definition extract_window_id :: "client \<Rightarrow> string" where
  "extract_window_id c =
     (if lower (initialClass c) \<noteq> [] then lower (initialClass c)
      else if lower (class' c) \<noteq> [] then lower (class' c)
      else if lower (title c) \<noteq> [] then
        (let possible_name = strip (before_sep '' - '' (lower (title c))) in
         if possible_name \<noteq> [] \<and> length possible_name > 1 then possible_name
         else lower (title c))
      else ''unknown-app'')"

type_synonym window_dict = "(string \<times> client list) list"

text \<open>\<^verbatim>\<open>running_windows[key]\<close> for a key that is present; the empty list stands for a miss.\<close>

definition group_of :: "window_dict \<Rightarrow> string \<Rightarrow> client list" where
  "group_of running_windows key =
     (case map_of running_windows key of None \<Rightarrow> [] | Some grp \<Rightarrow> grp)"

text \<open>\<^verbatim>\<open>running_windows.setdefault(key, []).extend(new)\<close>: a new key goes to the end of
  the dictionary, a present one keeps its place.\<close>

definition setdefault_extend :: "window_dict \<Rightarrow> string \<Rightarrow> client list \<Rightarrow> window_dict" where
  "setdefault_extend running_windows key new =
     AList.update key (group_of running_windows key @ new) running_windows"

text \<open>
  One round of the loop of \<^verbatim>\<open>_build_running_windows\<close>:
  \<^verbatim>\<open>
      window_id = self._extract_window_id(c)
      running_windows.setdefault(window_id, []).append(c)
      normalized_id = self._normalize_window_class(window_id)
      if normalized_id != window_id:
          running_windows.setdefault(normalized_id, []).extend(running_windows[window_id])
  \<close>
  The whole group of the raw identifier, as it stands after the append, is added to the
  group of the normalised one.
\<close>

definition add_client :: "window_dict \<Rightarrow> client \<Rightarrow> window_dict" where
  "add_client running_windows c =
     (let window_id = extract_window_id c;
          rw1 = setdefault_extend running_windows window_id [c];
          normalized_id = normalize_window_class window_id
      in if normalized_id \<noteq> window_id
         then setdefault_extend rw1 normalized_id (group_of rw1 window_id)
         else rw1)"

definition build_running_windows :: "client list \<Rightarrow> window_dict" where
  "build_running_windows clients = foldl add_client [] clients"

subsection \<open>Activating a button\<close>

text \<open>\<^verbatim>\<open>next((i for i, inst in enumerate(instances) if inst["address"] == focused), -1)\<close>,
  counting from \<open>i\<close>.\<close>

fun first_index :: "string \<Rightarrow> client list \<Rightarrow> nat \<Rightarrow> int" where
  "first_index focused [] i = - 1"
| "first_index focused (inst # instances) i =
     (if address inst = focused then int i else first_index focused instances (Suc i))"

text \<open>What activating a button does: launch the application, or run a shell command.\<close>

datatype effect = Launch app_identifier "desktop_app option" | Shell string

text \<open>
  \<^verbatim>\<open>
  def _focus_next_instance(self, instances):
      focused = self.get_focused()
      idx = next((i for i, inst in enumerate(instances) if inst["address"] == focused), -1)
      next_inst = instances[(idx + 1) % len(instances)]
      exec_shell_command(f"hyprctl dispatch focuswindow address:{next_inst['address']}")
  \<close>
  The remainder by the length raises ZeroDivisionError on an empty list.
\<close>

definition focus_next_instance :: "client list \<Rightarrow> string option query \<Rightarrow> error + effect" where
  "focus_next_instance instances q =
     (case get_focused q of
        Inl e \<Rightarrow> Inl e
      | Inr focused \<Rightarrow>
          if instances = [] then Inl ZeroDivisionError
          else let idx = first_index focused instances 0;
                   next_inst = instances ! nat ((idx + 1) mod int (length instances))
               in Inr (Shell (''hyprctl dispatch focuswindow address:'' @ address next_inst)))"

text \<open>\<^verbatim>\<open>handle_app\<close>; what \<^verbatim>\<open>_launch_app\<close> then does is not modelled.\<close>

definition handle_app :: "app_identifier \<Rightarrow> client list \<Rightarrow> desktop_app option \<Rightarrow>
    string option query \<Rightarrow> error + effect" where
  "handle_app app_identifier instances desktop_app q =
     (if instances = [] then Inr (Launch app_identifier desktop_app)
      else focus_next_instance instances q)"

text \<open>A window whose class and initial class are \<open>cls\<close>, with no title.\<close>

definition win :: "string \<Rightarrow> string \<Rightarrow> client" where
  "win addr cls = \<lparr>address = addr, initialClass = cls, class' = cls, title = []\<rparr>"

subsection \<open>Buttons\<close>

text \<open>The attributes \<^verbatim>\<open>create_button\<close> stores on a button.\<close>

record button =
  app_identifier :: app_identifier
  desktop_app :: "desktop_app option"
  instances :: "client list"

text \<open>
  \<^verbatim>\<open>
  def _get_app_icon(self, app_identifier, desktop_app):
      if desktop_app:
          icon_pixbuf = desktop_app.get_icon_pixbuf(size=self.icon_size)
          if icon_pixbuf:
              return icon_pixbuf
      id_value = app_identifier["name"] if isinstance(app_identifier, dict) else app_identifier
      ...
  \<close>
  The picture is not modelled, only whether the function returns: when the descriptor
  gives no icon, or there is no descriptor, \<^verbatim>\<open>app_identifier["name"]\<close> raises KeyError
  on a dictionary without the key \<^verbatim>\<open>name\<close>. The parameter \<open>icon_found\<close> says of which
  descriptors \<^verbatim>\<open>get_icon_pixbuf\<close> gives an icon.
\<close>

definition get_app_icon :: "(desktop_app \<Rightarrow> bool) \<Rightarrow> app_identifier \<Rightarrow> desktop_app option \<Rightarrow>
    error + unit" where
  "get_app_icon icon_found app_id app =
     (if (case app of None \<Rightarrow> False | Some a \<Rightarrow> icon_found a) then Inr ()
      else (case app_id of
              Bare s \<Rightarrow> Inr ()
            | Structured d \<Rightarrow>
                (case map_of d ''name'' of None \<Rightarrow> Inl KeyError | Some v \<Rightarrow> Inr ())))"

text \<open>\<^verbatim>\<open>create_button\<close>: the descriptor is resolved, the icon looked up, the button made.\<close>

definition create_button :: "(desktop_app \<Rightarrow> bool) \<Rightarrow> dock \<Rightarrow> app_identifier \<Rightarrow> client list \<Rightarrow>
    error + button" where
  "create_button icon_found self app_id insts =
     (let app = find_app self app_id in
      case get_app_icon icon_found app_id app of
        Inl e \<Rightarrow> Inl e
      | Inr u \<Rightarrow> Inr \<lparr>app_identifier = app_id, desktop_app = app, instances = insts\<rparr>)"

text \<open>An identifier that is a bare string, or a dictionary with the key \<^verbatim>\<open>name\<close>.\<close>

fun has_name :: "app_identifier \<Rightarrow> bool" where
  "has_name (Bare s) = True"
| "has_name (Structured d) = (map_of d ''name'' \<noteq> None)"

text \<open>A child of the dock's view: an application button or the separator.\<close>

datatype child = Button button | Separator

subsection \<open>Matching a pinned record against the window groups\<close>

text \<open>\<^verbatim>\<open>if v: identifiers.append(f(v))\<close>.\<close>

definition identifier_of :: "string option \<Rightarrow> (string \<Rightarrow> string) \<Rightarrow> string list" where
  "identifier_of v f = (case v of None \<Rightarrow> [] | Some s \<Rightarrow> if s = [] then [] else [f s])"

text \<open>The identifiers \<^verbatim>\<open>_get_possible_identifiers\<close> takes from the descriptor.\<close>

definition descriptor_identifiers :: "desktop_app \<Rightarrow> string list" where
  "descriptor_identifiers app =
     identifier_of (window_class app) lower @
     identifier_of (executable app) (\<lambda>s. lower (basename s)) @
     (case command_line app of
        None \<Rightarrow> []
      | Some cl \<Rightarrow>
          if cl = [] then []
          else (case split_ws cl of [] \<Rightarrow> [] | tok # _ \<Rightarrow> [lower (basename tok)])) @
     identifier_of (name app) lower @
     identifier_of (display_name app) lower"

text \<open>
  \<^verbatim>\<open>_get_possible_identifiers\<close> ends with \<^verbatim>\<open>return list(set(identifiers))\<close>. The order
  in which Python iterates a set of strings is not fixed by the program; it is the
  parameter \<open>set_order\<close>, which stands for \<^verbatim>\<open>lambda xs: list(set(xs))\<close>.
\<close>

definition get_possible_identifiers :: "(string list \<Rightarrow> string list) \<Rightarrow> app_identifier \<Rightarrow>
    desktop_app option \<Rightarrow> string list" where
  "get_possible_identifiers set_order app_data app =
     set_order
       ((case app_data of
           Structured d \<Rightarrow> map lower (key_values d)
         | Bare s \<Rightarrow> [lower s]) @
        (case app of None \<Rightarrow> [] | Some a \<Rightarrow> descriptor_identifiers a))"

text \<open>The body of the loop of \<^verbatim>\<open>_find_instances_for_app\<close> for one identifier: the exact
  key, the normalised key, then, for an identifier of three characters or more, the first
  key of the dictionary that contains it.\<close>

definition match_identifier :: "window_dict \<Rightarrow> string \<Rightarrow> (client list \<times> string) option" where
  "match_identifier running_windows identifier =
     (case map_of running_windows identifier of
        Some grp \<Rightarrow> Some (grp, identifier)
      | None \<Rightarrow>
          (let normalized = normalize_window_class identifier in
           case map_of running_windows normalized of
             Some grp \<Rightarrow> Some (grp, normalized)
           | None \<Rightarrow>
               if length identifier \<ge> 3 then
                 (case List.find (\<lambda>item. contains (fst item) identifier) running_windows of
                    Some item \<Rightarrow> Some (group_of running_windows (fst item), fst item)
                  | None \<Rightarrow> None)
               else None))"

fun match_identifiers :: "window_dict \<Rightarrow> string list \<Rightarrow> client list \<times> string option" where
  "match_identifiers running_windows [] = ([], None)"
| "match_identifiers running_windows (identifier # identifiers) =
     (case match_identifier running_windows identifier of
        Some (grp, key) \<Rightarrow> (grp, Some key)
      | None \<Rightarrow> match_identifiers running_windows identifiers)"

definition find_instances_for_app :: "dock \<Rightarrow> (string list \<Rightarrow> string list) \<Rightarrow> app_identifier \<Rightarrow>
    window_dict \<Rightarrow> client list \<times> string option" where
  "find_instances_for_app self set_order app_data running_windows =
     match_identifiers running_windows
       (get_possible_identifiers set_order app_data (find_app self app_data))"

subsection \<open>Reconciliation\<close>

text \<open>
  One round of the loop of \<^verbatim>\<open>_create_pinned_buttons\<close>:
  \<^verbatim>\<open>
      instances, matched_class = self._find_instances_for_app(app_data, running_windows)
      if matched_class:
          used_classes.add(matched_class)
          used_classes.add(self._normalize_window_class(matched_class))
      pinned_buttons.append(self.create_button(app_data, instances))
  \<close>
  The test \<^verbatim>\<open>if matched_class\<close> fails for \<^verbatim>\<open>None\<close> and for the empty string. An
  exception of \<^verbatim>\<open>create_button\<close> leaves the loop.
\<close>

definition pin_button :: "(desktop_app \<Rightarrow> bool) \<Rightarrow> dock \<Rightarrow> (string list \<Rightarrow> string list) \<Rightarrow>
    window_dict \<Rightarrow> button list \<times> string set \<Rightarrow> app_identifier \<Rightarrow>
    error + button list \<times> string set" where
  "pin_button icon_found self set_order running_windows acc app_data =
     (let (insts, matched_class) = find_instances_for_app self set_order app_data running_windows;
          used_classes =
            (case matched_class of
               None \<Rightarrow> snd acc
             | Some key \<Rightarrow>
                 if key = [] then snd acc
                 else insert (normalize_window_class key) (insert key (snd acc)))
      in case create_button icon_found self app_data insts of
           Inl e \<Rightarrow> Inl e
         | Inr b \<Rightarrow> Inr (fst acc @ [b], used_classes))"

fun pin_buttons :: "(desktop_app \<Rightarrow> bool) \<Rightarrow> dock \<Rightarrow> (string list \<Rightarrow> string list) \<Rightarrow>
    window_dict \<Rightarrow> button list \<times> string set \<Rightarrow> app_identifier list \<Rightarrow>
    error + button list \<times> string set" where
  "pin_buttons icon_found self set_order running_windows acc [] = Inr acc"
| "pin_buttons icon_found self set_order running_windows acc (app_data # pinned) =
     (case pin_button icon_found self set_order running_windows acc app_data of
        Inl e \<Rightarrow> Inl e
      | Inr acc' \<Rightarrow> pin_buttons icon_found self set_order running_windows acc' pinned)"

definition create_pinned_buttons :: "(desktop_app \<Rightarrow> bool) \<Rightarrow> dock \<Rightarrow>
    (string list \<Rightarrow> string list) \<Rightarrow> app_identifier list \<Rightarrow> window_dict \<Rightarrow>
    error + button list \<times> string set" where
  "create_pinned_buttons icon_found self set_order pinned running_windows =
     pin_buttons icon_found self set_order running_windows ([], {}) pinned"

text \<open>\<^verbatim>\<open>instances[0].get("title")\<close>, when there is a first instance with a title.\<close>

definition first_title :: "client list \<Rightarrow> string option" where
  "first_title insts =
     (case insts of [] \<Rightarrow> None | inst # _ \<Rightarrow> if title inst = [] then None else Some (title inst))"

text \<open>\<^verbatim>\<open>a or b\<close> on descriptors.\<close>

definition or_else :: "desktop_app option \<Rightarrow> desktop_app option \<Rightarrow> desktop_app option" where
  "or_else a b = (case a of Some app \<Rightarrow> Some app | None \<Rightarrow> b)"

text \<open>\<^verbatim>\<open>_create_app_identifier\<close>: the descriptor of a running class by the index, by the
  index at the normalised class, by \<^verbatim>\<open>find_app_by_key\<close>, then by the head of the first
  window's title when that is longer than two characters.\<close>

definition create_app_identifier :: "dock \<Rightarrow> string \<Rightarrow> client list \<Rightarrow> app_identifier" where
  "create_app_identifier self class_name insts =
     (let app1 = or_else (exact_match self class_name)
                   (or_else (exact_match self (normalize_window_class class_name))
                      (find_app_by_key self class_name));
          app2 = (case app1 of
                    Some app \<Rightarrow> Some app
                  | None \<Rightarrow>
                      (case first_title insts of
                         None \<Rightarrow> None
                       | Some t \<Rightarrow>
                           (let potential_name = strip (before_sep '' - '' t) in
                            if length potential_name > 2 then find_app_by_key self potential_name
                            else None)))
      in case app2 of
           Some app \<Rightarrow> Structured (app_data_of app)
         | None \<Rightarrow> Bare class_name)"

text \<open>\<^verbatim>\<open>_create_open_buttons\<close>: one button for each key of the dictionary, in the order
  of the dictionary, that is not among the used classes.\<close>

fun create_open_buttons :: "(desktop_app \<Rightarrow> bool) \<Rightarrow> dock \<Rightarrow> window_dict \<Rightarrow> string set \<Rightarrow>
    error + button list" where
  "create_open_buttons icon_found self [] used_classes = Inr []"
| "create_open_buttons icon_found self ((class_name, insts) # items) used_classes =
     (if class_name \<notin> used_classes then
        (case create_button icon_found self (create_app_identifier self class_name insts) insts of
           Inl e \<Rightarrow> Inl e
         | Inr b \<Rightarrow>
             (case create_open_buttons icon_found self items used_classes of
                Inl e \<Rightarrow> Inl e
              | Inr open_buttons \<Rightarrow> Inr (b # open_buttons)))
      else create_open_buttons icon_found self items used_classes)"

definition combine_buttons :: "button list \<Rightarrow> button list \<Rightarrow> child list" where
  "combine_buttons pinned_buttons open_buttons =
     map Button pinned_buttons @
     (if pinned_buttons \<noteq> [] \<and> open_buttons \<noteq> [] then [Separator] else []) @
     map Button open_buttons"

text \<open>The part of \<^verbatim>\<open>update_dock\<close> that follows the grouping of the windows.\<close>

definition reconcile :: "(desktop_app \<Rightarrow> bool) \<Rightarrow> dock \<Rightarrow> (string list \<Rightarrow> string list) \<Rightarrow>
    app_identifier list \<Rightarrow> window_dict \<Rightarrow> error + child list" where
  "reconcile icon_found self set_order pinned running_windows =
     (case create_pinned_buttons icon_found self set_order pinned running_windows of
        Inl e \<Rightarrow> Inl e
      | Inr (pinned_buttons, used_classes) \<Rightarrow>
          (case create_open_buttons icon_found self running_windows used_classes of
             Inl e \<Rightarrow> Inl e
           | Inr open_buttons \<Rightarrow> Inr (combine_buttons pinned_buttons open_buttons)))"

text \<open>\<^verbatim>\<open>update_dock\<close>: the catalog is read and indexed anew, the compositor is asked for
  its clients, and the children of the view are set.\<close>

definition update_dock :: "(desktop_app \<Rightarrow> bool) \<Rightarrow> (string list \<Rightarrow> string list) \<Rightarrow>
    desktop_app list \<Rightarrow> client list query \<Rightarrow> app_identifier list \<Rightarrow> error + child list" where
  "update_dock icon_found set_order catalog q pinned =
     (case update_app_map catalog of
        Inl e \<Rightarrow> Inl e
      | Inr self \<Rightarrow>
          (case get_clients q of
             Inl e \<Rightarrow> Inl e
           | Inr clients \<Rightarrow>
               reconcile icon_found self set_order pinned (build_running_windows clients)))"

text \<open>The items of the dictionary for which \<^verbatim>\<open>_create_open_buttons\<close> makes a button.\<close>

definition open_items :: "window_dict \<Rightarrow> string set \<Rightarrow> (string \<times> client list) list" where
  "open_items running_windows used_classes =
     filter (\<lambda>item. fst item \<notin> used_classes) running_windows"

text \<open>A third application of the catalog.\<close>

definition vscode :: desktop_app where
  "vscode = \<lparr>name = Some ''code'', display_name = Some ''Visual Studio Code'',
     window_class = Some ''Code'', executable = Some ''/usr/bin/code'',
     command_line = Some ''code %F''\<rparr>"

text \<open>The grouping of one Code::Blocks window.\<close>

definition one_window :: window_dict where
  "one_window = [(''codeblocks'', [win ''0x1'' ''codeblocks''])]"

subsection \<open>The pinned configuration\<close>

text \<open>
  The configuration document \<^verbatim>\<open>{"pinned_apps": [...]}\<close>: the list under the key, or
  \<^term>\<open>None\<close> when the key is absent. The entries are strings or dictionaries, as the
  persisted layout has them.
\<close>

record config_data =
  pinned_apps :: "app_identifier list option"

text \<open>
  The file at the configuration path: absent, not JSON, or the text of a document.
  \<^verbatim>\<open>json.load\<close> of what \<^verbatim>\<open>json.dump\<close> wrote is taken to give the document back.
\<close>

datatype config_file = Missing | NotJsonFile | Document config_data

record filesystem =
  content :: config_file
  writable :: bool

text \<open>\<^verbatim>\<open>pinned and isinstance(pinned[0], str)\<close> with
  \<^verbatim>\<open>pinned = config_data.get("pinned_apps", [])\<close>.\<close>

definition needs_migration :: "config_data \<Rightarrow> bool" where
  "needs_migration config =
     (case pinned_apps config of
        None \<Rightarrow> False
      | Some [] \<Rightarrow> False
      | Some (Bare s # rest) \<Rightarrow> True
      | Some (Structured d # rest) \<Rightarrow> False)"

text \<open>\<^verbatim>\<open>{app.name: app for app in all_apps if app.name}\<close>.\<close>

definition app_map_of :: "desktop_app list \<Rightarrow> (string \<times> desktop_app) list" where
  "app_map_of catalog = foldl (\<lambda>m app. register (name app) (\<lambda>s. s) app m) [] catalog"

text \<open>
  One round of the loop of \<^verbatim>\<open>_migrate_config\<close>:
  \<^verbatim>\<open>
      app = app_map.get(app_id)
      if app:
          app_data = {"name": app.name, "display_name": app.display_name,
                      "window_class": app.window_class, "executable": app.executable,
                      "command_line": app.command_line}
          config_data["pinned_apps"].append(app_data)
      else:
          config_data["pinned_apps"].append({"name": app_id})
  \<close>
  A dictionary is not hashable: \<^verbatim>\<open>app_map.get(app_id)\<close> raises TypeError on it.
\<close>

definition migrate_entry :: "(string \<times> desktop_app) list \<Rightarrow> app_identifier \<Rightarrow>
    error + app_identifier" where
  "migrate_entry app_map app_id =
     (case app_id of
        Structured d \<Rightarrow> Inl TypeError
      | Bare s \<Rightarrow>
          (case map_of app_map s of
             Some app \<Rightarrow> Inr (Structured (app_data_of app))
           | None \<Rightarrow> Inr (Structured [(''name'', Some s)])))"

fun migrate_entries :: "(string \<times> desktop_app) list \<Rightarrow> app_identifier list \<Rightarrow>
    error + app_identifier list" where
  "migrate_entries app_map [] = Inr []"
| "migrate_entries app_map (app_id # old_pinned) =
     (case migrate_entry app_map app_id of
        Inl e \<Rightarrow> Inl e
      | Inr app_data \<Rightarrow>
          (case migrate_entries app_map old_pinned of
             Inl e \<Rightarrow> Inl e
           | Inr migrated \<Rightarrow> Inr (app_data # migrated)))"

text \<open>\<^verbatim>\<open>_migrate_config\<close>; the catalog is what \<^verbatim>\<open>get_desktop_applications()\<close> returns.\<close>

definition migrate_config :: "desktop_app list \<Rightarrow> config_data \<Rightarrow> error + config_data" where
  "migrate_config catalog config =
     (case pinned_apps config of
        None \<Rightarrow> Inl KeyError
      | Some old_pinned \<Rightarrow>
          (case migrate_entries (app_map_of catalog) old_pinned of
             Inl e \<Rightarrow> Inl e
           | Inr migrated \<Rightarrow> Inr (config\<lparr>pinned_apps := Some migrated\<rparr>)))"

text \<open>
  \<^verbatim>\<open>
  def _read_config(self):
      try:
          with open(self.config_path, "r") as file:
              config_data = json.load(file)
          if self._needs_migration(config_data):
              config_data = self._migrate_config(config_data)
          return config_data
      except (FileNotFoundError, json.JSONDecodeError):
          return {"pinned_apps": []}
  \<close>
\<close>

definition read_config :: "desktop_app list \<Rightarrow> filesystem \<Rightarrow> error + config_data" where
  "read_config catalog fs =
     (case content fs of
        Missing \<Rightarrow> Inr \<lparr>pinned_apps = Some []\<rparr>
      | NotJsonFile \<Rightarrow> Inr \<lparr>pinned_apps = Some []\<rparr>
      | Document config \<Rightarrow>
          if needs_migration config then migrate_config catalog config else Inr config)"

text \<open>The property \<^verbatim>\<open>pinned_apps\<close> of \<^verbatim>\<open>DockConfig\<close> and its setter.\<close>

definition get_pinned_apps :: "config_data \<Rightarrow> app_identifier list" where
  "get_pinned_apps config = (case pinned_apps config of None \<Rightarrow> [] | Some l \<Rightarrow> l)"

definition set_pinned_apps :: "config_data \<Rightarrow> app_identifier list \<Rightarrow> config_data" where
  "set_pinned_apps config v = config\<lparr>pinned_apps := Some v\<rparr>"

text \<open>\<^verbatim>\<open>save\<close>: the document is written and \<^verbatim>\<open>True\<close> returned; when the file cannot be
  opened for writing the exception is caught and \<^verbatim>\<open>False\<close> returned.\<close>

definition save :: "config_data \<Rightarrow> filesystem \<Rightarrow> bool \<times> filesystem" where
  "save config fs =
     (if writable fs then (True, fs\<lparr>content := Document config\<rparr>) else (False, fs))"

text \<open>\<^verbatim>\<open>reload\<close>.\<close>

definition reload :: "desktop_app list \<Rightarrow> filesystem \<Rightarrow> error + config_data" where
  "reload catalog fs = read_config catalog fs"

subsection \<open>Occlusion\<close>

text \<open>The attributes of the dock that the occlusion functions read and write;
  \<open>saved_always_show\<close> is \<^term>\<open>None\<close> when the attribute \<^verbatim>\<open>_saved_always_show\<close> does
  not exist, \<open>reveal_child\<close> is the state of the revealer, \<open>occluded\<close> the style class
  of that name.\<close>

record dock_state =
  integrated_mode :: bool
  always_show :: bool
  saved_always_show :: "bool option"
  forced_occlusion :: bool
  is_mouse_over_dock_area :: bool
  drag_in_progress :: bool
  prevent_occlusion :: bool
  reveal_child :: bool
  occluded :: bool

text \<open>\<^verbatim>\<open>if not revealer.get_reveal_child(): revealer.set_reveal_child(True);
  dock_full.remove_style_class("occluded")\<close> and its opposite.\<close>

definition reveal :: "dock_state \<Rightarrow> dock_state" where
  "reveal s = (if \<not> reveal_child s then s\<lparr>reveal_child := True, occluded := False\<rparr> else s)"

definition conceal :: "dock_state \<Rightarrow> dock_state" where
  "conceal s = (if reveal_child s then s\<lparr>reveal_child := False, occluded := True\<rparr> else s)"

text \<open>\<^verbatim>\<open>check_occlusion_state\<close>: the returned flag and the state it leaves.\<close>

definition check_occlusion_state :: "dock_state \<Rightarrow> bool \<times> dock_state" where
  "check_occlusion_state s =
     (if integrated_mode s then (False, s)
      else if forced_occlusion s then
        (True, if is_mouse_over_dock_area s then reveal s else conceal s)
      else if is_mouse_over_dock_area s \<or> drag_in_progress s \<or> prevent_occlusion s then
        (True,
         if \<not> reveal_child s then
           (if \<not> always_show s then s\<lparr>reveal_child := True, occluded := False\<rparr>
            else s\<lparr>reveal_child := True\<rparr>)
         else s)
      else if always_show s then (True, reveal s)
      else (True, conceal s))"

text \<open>
  \<^verbatim>\<open>
  def force_occlusion(self):
      if self.integrated_mode:
          return
      self._saved_always_show = self.always_show
      self.always_show = False
      self._forced_occlusion = True
      if not self.is_mouse_over_dock_area:
          self.dock_revealer.set_reveal_child(False)
  \<close>
\<close>

definition force_occlusion :: "dock_state \<Rightarrow> dock_state" where
  "force_occlusion s =
     (if integrated_mode s then s
      else let s1 = s\<lparr>saved_always_show := Some (always_show s),
                       always_show := False,
                       forced_occlusion := True\<rparr>
           in if \<not> is_mouse_over_dock_area s1 then s1\<lparr>reveal_child := False\<rparr> else s1)"

text \<open>
  \<^verbatim>\<open>
  def restore_from_occlusion(self):
      if self.integrated_mode:
          return
      self._forced_occlusion = False
      if hasattr(self, '_saved_always_show'):
          self.always_show = self._saved_always_show
          delattr(self, '_saved_always_show')
      self.check_occlusion_state()
  \<close>
\<close>

definition restore_from_occlusion :: "dock_state \<Rightarrow> dock_state" where
  "restore_from_occlusion s =
     (if integrated_mode s then s
      else let s1 = s\<lparr>forced_occlusion := False\<rparr>;
               s2 = (case saved_always_show s1 of
                       Some v \<Rightarrow> s1\<lparr>always_show := v, saved_always_show := None\<rparr>
                     | None \<Rightarrow> s1)
           in snd (check_occlusion_state s2))"

text \<open>A dock window that is shown because \<^verbatim>\<open>always_show\<close> is set, with the pointer
  elsewhere; and an integrated dock.\<close>

definition shown_dock :: dock_state where
  "shown_dock = \<lparr>integrated_mode = False, always_show = True, saved_always_show = None,
     forced_occlusion = False, is_mouse_over_dock_area = False, drag_in_progress = False,
     prevent_occlusion = False, reveal_child = True, occluded = False\<rparr>"

definition integrated_dock :: dock_state where
  "integrated_dock = \<lparr>integrated_mode = True, always_show = False, saved_always_show = None,
     forced_occlusion = False, is_mouse_over_dock_area = False, drag_in_progress = False,
     prevent_occlusion = False, reveal_child = False, occluded = False\<rparr>"

subsection \<open>Facts about normalisation\<close>

lemma lower_char_idem: "lower_char (lower_char c) = lower_char c"
  by (simp add: lower_char_def)

lemma lower_idem: "lower (lower s) = lower s"
  by (simp add: lower_def lower_char_idem)

lemma lower_take: "lower (take n s) = take n (lower s)"
  by (simp add: lower_def take_map)

lemma strip_suffix_take: "\<exists>k. strip_suffix s x = take k s"
proof (cases "endswith s x")
  case True
  then show ?thesis by (auto simp: strip_suffix_def)
next
  case False
  then have "strip_suffix s x = take (length s) s" by (simp add: strip_suffix_def)
  then show ?thesis by blast
qed

lemma foldl_strip_take: "\<exists>k. foldl strip_suffix s xs = take k s"
proof (induction xs arbitrary: s)
  case Nil
  have "foldl strip_suffix s [] = take (length s) s" by simp
  then show ?case by blast
next
  case (Cons x xs)
  obtain k where k: "strip_suffix s x = take k s" using strip_suffix_take by blast
  obtain j where j: "foldl strip_suffix (take k s) xs = take j (take k s)"
    using Cons.IH by blast
  have "foldl strip_suffix s (x # xs) = take (min j k) s" using k j by simp
  then show ?case by blast
qed

lemma normalize_lower: "lower (normalize_window_class s) = normalize_window_class s"
proof (cases "s = []")
  case True
  then show ?thesis by (simp add: normalize_window_class_def lower_def)
next
  case False
  obtain k where "foldl strip_suffix (lower s) suffixes = take k (lower s)"
    using foldl_strip_take by blast
  with False show ?thesis
    by (simp add: normalize_window_class_def lower_take lower_idem)
qed

lemma strip_suffix_length: "length (strip_suffix s x) \<le> length s"
  by (simp add: strip_suffix_def)

lemma foldl_strip_length: "length (foldl strip_suffix s xs) \<le> length s"
proof (induction xs arbitrary: s)
  case Nil
  then show ?case by simp
next
  case (Cons x xs)
  have "length (foldl strip_suffix (strip_suffix s x) xs) \<le> length (strip_suffix s x)"
    using Cons.IH .
  also have "\<dots> \<le> length s" by (rule strip_suffix_length)
  finally show ?case by simp
qed

lemma foldl_strip_none:
  "\<forall>x \<in> set xs. \<not> endswith s x \<Longrightarrow> foldl strip_suffix s xs = s"
  by (induction xs) (auto simp: strip_suffix_def)

lemma foldl_strip_some:
  assumes "x \<in> set xs" and "endswith s x" and "\<forall>y \<in> set xs. y \<noteq> []"
  shows "length (foldl strip_suffix s xs) < length s"
  using assms
proof (induction xs arbitrary: s)
  case Nil
  then show ?case by simp
next
  case (Cons y ys)
  show ?case
  proof (cases "endswith s y")
    case True
    have "y \<noteq> []" using Cons.prems(3) by simp
    moreover have "length y \<le> length s" using True by (simp add: endswith_def)
    ultimately have "length (strip_suffix s y) < length s"
      using True by (cases y) (auto simp: strip_suffix_def)
    moreover have "length (foldl strip_suffix (strip_suffix s y) ys) \<le> length (strip_suffix s y)"
      by (rule foldl_strip_length)
    ultimately show ?thesis by simp
  next
    case False
    then have "x \<in> set ys" using Cons.prems(1,2) by auto
    moreover have "strip_suffix s y = s" using False by (simp add: strip_suffix_def)
    ultimately show ?thesis using Cons.IH [of s] Cons.prems(2,3) by simp
  qed
qed

lemma suffixes_nonempty: "\<forall>y \<in> set suffixes. y \<noteq> []"
  by (simp add: suffixes_def)

text \<open>
  Claim C4, as stated, fails: \<^verbatim>\<open>"Game.bin.exe"\<close> normalises to \<^verbatim>\<open>"game.bin"\<close>
  (\<^verbatim>\<open>.bin\<close> was tried before \<^verbatim>\<open>.exe\<close> was stripped), and \<^verbatim>\<open>"game.bin"\<close>
  normalises to \<^verbatim>\<open>"game"\<close>: normalising twice differs from normalising once.
\<close>

theorem normalize_not_idempotent:
  "normalize_window_class ''Game.bin.exe'' = ''game.bin'' \<and>
   normalize_window_class (normalize_window_class ''Game.bin.exe'') = ''game'' \<and>
   normalize_window_class (normalize_window_class ''Game.bin.exe'')
     \<noteq> normalize_window_class ''Game.bin.exe''"
  by (simp add: normalize_window_class_def suffixes_def strip_suffix_def endswith_def
      lower_def lower_char_def)

text \<open>
  Claim C4, amended: normalisation lowercases and then goes once through the suffixes
  \<^verbatim>\<open>.bin\<close>, \<^verbatim>\<open>.exe\<close>, \<^verbatim>\<open>.so\<close>, \<^verbatim>\<open>-bin\<close>, \<^verbatim>\<open>-gtk\<close> in that order, stripping
  each one that ends the string at its turn; normalising twice equals normalising once
  exactly when the normalised string ends with none of the five suffixes.
\<close>

theorem normalize_idempotent_iff:
  "normalize_window_class (normalize_window_class s) = normalize_window_class s
   \<longleftrightarrow> (\<forall>x \<in> set suffixes. \<not> endswith (normalize_window_class s) x)"
proof (cases "normalize_window_class s = []")
  case True
  then show ?thesis
    by (simp add: normalize_window_class_def [of "[]"] endswith_def suffixes_def)
next
  case False
  let ?t = "normalize_window_class s"
  have nt: "normalize_window_class ?t = foldl strip_suffix ?t suffixes"
    using False by (simp add: normalize_window_class_def [of ?t] normalize_lower)
  show ?thesis
  proof
    assume eq: "normalize_window_class ?t = ?t"
    show "\<forall>x \<in> set suffixes. \<not> endswith ?t x"
    proof
      fix x
      assume x: "x \<in> set suffixes"
      show "\<not> endswith ?t x"
      proof
        assume "endswith ?t x"
        then have "length (foldl strip_suffix ?t suffixes) < length ?t"
          using foldl_strip_some [OF x _ suffixes_nonempty] by blast
        then show False using eq nt by simp
      qed
    qed
  next
    assume "\<forall>x \<in> set suffixes. \<not> endswith ?t x"
    then show "normalize_window_class ?t = ?t"
      using nt by (simp add: foldl_strip_none)
  qed
qed

theorem normalize_idempotent_iff_witness:
  "normalize_window_class (normalize_window_class ''Firefox.exe'')
     = normalize_window_class ''Firefox.exe''
   \<and> list_all (\<lambda>x. \<not> endswith (normalize_window_class ''Firefox.exe'') x) suffixes
   \<and> normalize_window_class ''Firefox.exe'' = ''firefox''"
proof -
  have n: "normalize_window_class ''Firefox.exe'' = ''firefox''"
    by (simp add: normalize_window_class_def suffixes_def strip_suffix_def endswith_def
        lower_def lower_char_def)
  have h: "\<forall>x \<in> set suffixes. \<not> endswith (normalize_window_class ''Firefox.exe'') x"
    by (simp add: n suffixes_def endswith_def)
  show ?thesis
    using normalize_idempotent_iff [of "''Firefox.exe''"] h n by (simp add: list_all_iff)
qed

subsection \<open>Facts about resolution\<close>

lemma truthy_value_nonempty: "truthy_value d k = Some v \<Longrightarrow> v \<noteq> []"
  by (auto simp: truthy_value_def split: option.splits if_splits)

lemma map_filter_truthy_nonempty: "v \<in> set (List.map_filter (truthy_value d) keys) \<Longrightarrow> v \<noteq> []"
  by (auto simp: List.map_filter_def dest: truthy_value_nonempty)

lemma find_app_keys_find:
  "find_app_keys self d keys =
     (case List.find (\<lambda>v. find_app_by_key self v \<noteq> None)
             (List.map_filter (truthy_value d) keys) of
        None \<Rightarrow> None
      | Some v \<Rightarrow> find_app_by_key self v)"
proof (induction keys)
  case Nil
  then show ?case by (simp add: List.map_filter_simps)
next
  case (Cons key keys)
  show ?case
  proof (cases "truthy_value d key")
    case None
    then show ?thesis using Cons.IH by (simp add: List.map_filter_simps)
  next
    case (Some v)
    then show ?thesis using Cons.IH
      by (cases "find_app_by_key self v") (simp_all add: List.map_filter_simps)
  qed
qed

lemma code_dock_built: "update_app_map [codeblocks, code_oss] = Inr code_dock"
  by code_simp

text \<open>
  Claim C3, as stated, fails. The catalog holds Code::Blocks and Code - OSS, in that order.
  The record has the window class \<^verbatim>\<open>Code\<close> and the name \<^verbatim>\<open>code-oss\<close>. The name has an
  exact hit in the index (Code - OSS), the window class has none; yet \<^verbatim>\<open>find_app\<close> answers
  Code::Blocks, the fuzzy match of the window class, the earlier key.
\<close>

theorem find_app_fuzzy_before_exact:
  "exact_match code_dock (lower ''code-oss'') = Some code_oss \<and>
   exact_match code_dock (lower ''Code'') = None \<and>
   fuzzy_match code_dock (lower ''Code'') = Some codeblocks \<and>
   find_app code_dock
     (Structured [(''name'', Some ''code-oss''), (''window_class'', Some ''Code'')])
     = Some codeblocks \<and>
   codeblocks \<noteq> code_oss"
  by code_simp

text \<open>
  Claim C3, amended: for every structured pinned record, \<^verbatim>\<open>find_app\<close> goes through the
  keys \<^verbatim>\<open>window_class\<close>, \<^verbatim>\<open>executable\<close>, \<^verbatim>\<open>command_line\<close>, \<^verbatim>\<open>name\<close>,
  \<^verbatim>\<open>display_name\<close> in that order and, for each key with a non-empty value, tries the exact
  index and then the fuzzy match before it moves to the next key. The answer is that of the
  first key whose value has an exact or a fuzzy hit: its exact hit if it has one, its fuzzy
  hit otherwise; there is no answer when no key has a hit.
\<close>

theorem find_app_first_key_with_hit:
  "find_app self (Structured d) =
     (case List.find (\<lambda>v. exact_match self (lower v) \<noteq> None \<or> fuzzy_match self (lower v) \<noteq> None)
             (key_values d) of
        None \<Rightarrow> None
      | Some v \<Rightarrow>
          (case exact_match self (lower v) of
             Some app \<Rightarrow> Some app
           | None \<Rightarrow> fuzzy_match self (lower v)))"
proof -
  have hit: "(find_app_by_key self v \<noteq> None) =
      (exact_match self (lower v) \<noteq> None \<or> fuzzy_match self (lower v) \<noteq> None)"
    if "v \<in> set (key_values d)" for v
  proof -
    have "v \<noteq> []" using that map_filter_truthy_nonempty by (simp add: key_values_def)
    then show ?thesis by (auto simp: find_app_by_key_def Let_def split: option.splits)
  qed
  have same: "List.find (\<lambda>v. find_app_by_key self v \<noteq> None) (key_values d) =
      List.find (\<lambda>v. exact_match self (lower v) \<noteq> None \<or> fuzzy_match self (lower v) \<noteq> None)
        (key_values d)"
    using hit by (intro find_cong) auto
  have res: "find_app_by_key self v =
      (case exact_match self (lower v) of Some app \<Rightarrow> Some app
       | None \<Rightarrow> fuzzy_match self (lower v))"
    if "v \<in> set (key_values d)" for v
  proof -
    have "v \<noteq> []" using that map_filter_truthy_nonempty by (simp add: key_values_def)
    then show ?thesis by (simp add: find_app_by_key_def Let_def)
  qed
  have keys: "find_app_keys self d priority_keys =
      (case List.find (\<lambda>v. find_app_by_key self v \<noteq> None) (key_values d) of
         None \<Rightarrow> None | Some v \<Rightarrow> find_app_by_key self v)"
    by (simp add: find_app_keys_find key_values_def)
  show ?thesis
  proof (cases "d = []")
    case True
    then show ?thesis
      by (simp add: key_values_def priority_keys_def List.map_filter_simps truthy_value_def)
  next
    case False
    show ?thesis
    proof (cases "List.find (\<lambda>v. find_app_by_key self v \<noteq> None) (key_values d)")
      case None
      then show ?thesis using False keys same by simp
    next
      case (Some v)
      then have "v \<in> set (key_values d)" by (auto simp: find_Some_iff)
      then show ?thesis using False keys same Some res by simp
    qed
  qed
qed

theorem find_app_first_key_with_hit_witness:
  "find_app code_dock
     (Structured [(''name'', Some ''code-oss''), (''window_class'', Some ''Code'')])
     = fuzzy_match code_dock (lower ''Code'') \<and>
   key_values [(''name'', Some ''code-oss''), (''window_class'', Some ''Code'')]
     = [''Code'', ''code-oss'']"
proof -
  have kv: "key_values [(''name'', Some ''code-oss''), (''window_class'', Some ''Code'')]
      = [''Code'', ''code-oss'']"
    by code_simp
  have e: "exact_match code_dock (lower ''Code'') = None" by code_simp
  have f: "fuzzy_match code_dock (lower ''Code'') = Some codeblocks" by code_simp
  show ?thesis
    using find_app_first_key_with_hit
      [of code_dock "[(''name'', Some ''code-oss''), (''window_class'', Some ''Code'')]"]
    by (simp add: kv e f)
qed

subsection \<open>Facts about the grouping\<close>

lemma group_of_setdefault_extend:
  "group_of (setdefault_extend rw key new) k =
     (if k = key then group_of rw key @ new else group_of rw k)"
  by (simp add: group_of_def setdefault_extend_def update_conv')

lemma group_of_add_client_mono: "set (group_of rw k) \<subseteq> set (group_of (add_client rw c) k)"
  by (auto simp: add_client_def Let_def group_of_setdefault_extend)

lemma add_client_raw: "c \<in> set (group_of (add_client rw c) (extract_window_id c))"
  by (auto simp: add_client_def Let_def group_of_setdefault_extend)

lemma add_client_normalized:
  "c \<in> set (group_of (add_client rw c) (normalize_window_class (extract_window_id c)))"
  by (auto simp: add_client_def Let_def group_of_setdefault_extend)

lemma add_client_sound:
  "set (group_of (add_client rw c) k) \<subseteq> insert c (\<Union>k'. set (group_of rw k'))"
  by (auto simp: add_client_def Let_def group_of_setdefault_extend split: if_splits)

lemma build_stores:
  "c \<in> set clients \<Longrightarrow>
   c \<in> set (group_of (build_running_windows clients) (extract_window_id c)) \<and>
   c \<in> set (group_of (build_running_windows clients) (normalize_window_class (extract_window_id c)))"
proof (induction clients rule: rev_induct)
  case Nil
  then show ?case by simp
next
  case (snoc x xs)
  have step: "build_running_windows (xs @ [x]) = add_client (build_running_windows xs) x"
    by (simp add: build_running_windows_def)
  show ?case
  proof (cases "c = x")
    case True
    then show ?thesis using step add_client_raw add_client_normalized by simp
  next
    case False
    then have "c \<in> set xs" using snoc.prems by simp
    then show ?thesis using snoc.IH step group_of_add_client_mono by fastforce
  qed
qed

lemma build_sound: "set (group_of (build_running_windows clients) k) \<subseteq> set clients"
proof (induction clients arbitrary: k rule: rev_induct)
  case Nil
  then show ?case by (simp add: build_running_windows_def group_of_def)
next
  case (snoc x xs)
  have step: "build_running_windows (xs @ [x]) = add_client (build_running_windows xs) x"
    by (simp add: build_running_windows_def)
  have "set (group_of (add_client (build_running_windows xs) x) k)
      \<subseteq> insert x (\<Union>k'. set (group_of (build_running_windows xs) k'))"
    by (rule add_client_sound)
  also have "\<dots> \<subseteq> insert x (set xs)" using snoc.IH by auto
  finally show ?case using step by auto
qed

text \<open>
  Claim C5, as stated, fails. Of three windows of classes \<^verbatim>\<open>foo\<close>, \<^verbatim>\<open>foo.bin\<close>,
  \<^verbatim>\<open>foo.bin\<close>, the group under the raw key \<^verbatim>\<open>foo.bin\<close> is the second and the third;
  the group under its normalised form \<^verbatim>\<open>foo\<close> is the first, the second twice, and the
  third.
\<close>

theorem running_windows_groups_differ:
  "normalize_window_class ''foo.bin'' = ''foo'' \<and>
   group_of (build_running_windows
       [win ''0x1'' ''foo'', win ''0x2'' ''foo.bin'', win ''0x3'' ''foo.bin'']) ''foo.bin''
     = [win ''0x2'' ''foo.bin'', win ''0x3'' ''foo.bin''] \<and>
   group_of (build_running_windows
       [win ''0x1'' ''foo'', win ''0x2'' ''foo.bin'', win ''0x3'' ''foo.bin'']) ''foo''
     = [win ''0x1'' ''foo'', win ''0x2'' ''foo.bin'', win ''0x2'' ''foo.bin'',
        win ''0x3'' ''foo.bin'']"
  by code_simp

text \<open>
  Claim C5, amended: for every client list, every window of the list is stored under its
  raw identifier and under the normalised form of that identifier, so that a lookup by
  either key finds it, and every stored window is a window of the list. The group under
  the normalised key need not be the group under the raw key.
\<close>

theorem running_windows_raw_and_normalized:
  assumes "c \<in> set clients"
  shows "c \<in> set (group_of (build_running_windows clients) (extract_window_id c)) \<and>
         c \<in> set (group_of (build_running_windows clients)
                     (normalize_window_class (extract_window_id c))) \<and>
         set (group_of (build_running_windows clients) k) \<subseteq> set clients"
  using assms build_stores build_sound by blast

theorem running_windows_raw_and_normalized_witness:
  "win ''0x2'' ''foo.bin'' \<in> set (group_of (build_running_windows
       [win ''0x1'' ''foo'', win ''0x2'' ''foo.bin'']) ''foo.bin'') \<and>
   win ''0x2'' ''foo.bin'' \<in> set (group_of (build_running_windows
       [win ''0x1'' ''foo'', win ''0x2'' ''foo.bin'']) ''foo'')"
proof -
  have m: "win ''0x2'' ''foo.bin'' \<in> set [win ''0x1'' ''foo'', win ''0x2'' ''foo.bin'']"
    by simp
  have e: "extract_window_id (win ''0x2'' ''foo.bin'') = ''foo.bin''" by code_simp
  have n: "normalize_window_class ''foo.bin'' = ''foo''" by code_simp
  show ?thesis
    using running_windows_raw_and_normalized [OF m, of "[]"] by (simp only: e n)
qed

subsection \<open>Facts about activation\<close>

lemma first_index_none:
  "focused \<notin> address ` set insts \<Longrightarrow> first_index focused insts i = - 1"
  by (induction insts arbitrary: i) auto

lemma first_index_first:
  "k < length insts \<Longrightarrow> address (insts ! k) = focused \<Longrightarrow>
   \<forall>j < k. address (insts ! j) \<noteq> focused \<Longrightarrow>
   first_index focused insts i = int (i + k)"
proof (induction insts arbitrary: i k)
  case Nil
  then show ?case by simp
next
  case (Cons inst rest)
  show ?case
  proof (cases k)
    case 0
    then show ?thesis using Cons.prems by simp
  next
    case (Suc m)
    have "address inst \<noteq> focused" using Cons.prems(3) Suc by auto
    moreover have "first_index focused rest (Suc i) = int (Suc i + m)"
      using Cons.prems Suc by (intro Cons.IH) auto
    ultimately show ?thesis using Suc by simp
  qed
qed

text \<open>The cycle of \<^verbatim>\<open>_focus_next_instance\<close>, by the first index at which the focused
  address occurs.\<close>

lemma focus_next_first_occurrence:
  assumes "insts \<noteq> []" and "get_focused q = Inr focused"
  shows "(focused \<notin> address ` set insts \<longrightarrow>
            handle_app ident insts app q =
              Inr (Shell (''hyprctl dispatch focuswindow address:'' @ address (insts ! 0))))
       \<and> (\<forall>k < length insts.
            address (insts ! k) = focused \<and> (\<forall>j < k. address (insts ! j) \<noteq> focused) \<longrightarrow>
            handle_app ident insts app q =
              Inr (Shell (''hyprctl dispatch focuswindow address:'' @
                          address (insts ! ((k + 1) mod length insts)))))"
proof (intro conjI impI allI)
  assume "focused \<notin> address ` set insts"
  then have "first_index focused insts 0 = - 1" by (rule first_index_none)
  then show "handle_app ident insts app q =
      Inr (Shell (''hyprctl dispatch focuswindow address:'' @ address (insts ! 0)))"
    using assms by (simp add: handle_app_def focus_next_instance_def)
next
  fix k
  assume k: "k < length insts"
    and h: "address (insts ! k) = focused \<and> (\<forall>j < k. address (insts ! j) \<noteq> focused)"
  have "first_index focused insts 0 = int (0 + k)"
    using k h by (intro first_index_first) auto
  moreover have "nat ((int k + 1) mod int (length insts)) = (k + 1) mod length insts"
    by (metis nat_int of_nat_1 of_nat_add zmod_int)
  ultimately show "handle_app ident insts app q =
      Inr (Shell (''hyprctl dispatch focuswindow address:'' @
                  address (insts ! ((k + 1) mod length insts))))"
    using assms by (simp add: handle_app_def focus_next_instance_def)
qed

text \<open>On a list in which no window occurs twice, the focused window is one instance \<open>k\<close>
  and the next one, at \<open>(k + 1) mod length\<close>, is focused.\<close>

lemma focus_next_distinct:
  assumes "insts \<noteq> []" and "get_focused q = Inr focused"
    and "distinct (map address insts)"
    and "k < length insts" and "address (insts ! k) = focused"
  shows "handle_app ident insts app q =
           Inr (Shell (''hyprctl dispatch focuswindow address:'' @
                       address (insts ! ((k + 1) mod length insts))))"
proof -
  have "\<forall>j < k. address (insts ! j) \<noteq> focused"
  proof (intro allI impI)
    fix j
    assume j: "j < k"
    have jl: "j < length (map address insts)" and kl: "k < length (map address insts)"
      using j assms(4) by simp_all
    have "(map address insts ! j = map address insts ! k) = (j = k)"
      using assms(3) jl kl by (rule nth_eq_iff_index_eq)
    moreover have "map address insts ! j = address (insts ! j)"
      and "map address insts ! k = address (insts ! k)"
      using j assms(4) by simp_all
    ultimately show "address (insts ! j) \<noteq> focused" using assms(5) j by auto
  qed
  then show ?thesis
    using focus_next_first_occurrence [OF assms(1,2), of ident app] assms(4,5) by blast
qed

text \<open>
  Claim C10 against the code, at two windows of one class \<^verbatim>\<open>foo.bin\<close>. The claim: when
  the focused window is instance \<open>i\<close> of the list, the instance at \<open>(i + 1) mod length\<close>
  is focused. The pass puts the list \<^verbatim>\<open>[0x1, 0x1, 0x2]\<close> on the button of the key
  \<^verbatim>\<open>foo\<close>, because \<^verbatim>\<open>_build_running_windows\<close> adds the whole raw group again at every
  client. With \<^verbatim>\<open>0x1\<close> focused, the focused window is instance 1 and the claim has
  instance 2, \<^verbatim>\<open>0x2\<close>, focused; the code takes index 0 and focuses instance 1, \<^verbatim>\<open>0x1\<close>
  again. With \<^verbatim>\<open>0x2\<close> focused it goes back to \<^verbatim>\<open>0x1\<close>: the button never reaches
  \<^verbatim>\<open>0x2\<close>.
\<close>

theorem focus_next_repeated_instance:
  "update_dock (\<lambda>app. False) remdups []
       (Reply [win ''0x1'' ''foo.bin'', win ''0x2'' ''foo.bin'']) []
     = Inr [Button \<lparr>app_identifier = Bare ''foo.bin'', desktop_app = None,
                     instances = [win ''0x1'' ''foo.bin'', win ''0x2'' ''foo.bin'']\<rparr>,
            Button \<lparr>app_identifier = Bare ''foo'', desktop_app = None,
                     instances = [win ''0x1'' ''foo.bin'', win ''0x1'' ''foo.bin'',
                                  win ''0x2'' ''foo.bin'']\<rparr>] \<and>
   address ([win ''0x1'' ''foo.bin'', win ''0x1'' ''foo.bin'', win ''0x2'' ''foo.bin''] ! 1)
     = ''0x1'' \<and>
   address ([win ''0x1'' ''foo.bin'', win ''0x1'' ''foo.bin'', win ''0x2'' ''foo.bin'']
              ! ((1 + 1) mod 3)) = ''0x2'' \<and>
   handle_app (Bare ''foo'')
       [win ''0x1'' ''foo.bin'', win ''0x1'' ''foo.bin'', win ''0x2'' ''foo.bin'']
       None (Reply (Some ''0x1''))
     = Inr (Shell ''hyprctl dispatch focuswindow address:0x1'') \<and>
   handle_app (Bare ''foo'')
       [win ''0x1'' ''foo.bin'', win ''0x1'' ''foo.bin'', win ''0x2'' ''foo.bin'']
       None (Reply (Some ''0x2''))
     = Inr (Shell ''hyprctl dispatch focuswindow address:0x1'')"
  by code_simp

subsection \<open>Facts about reconciliation\<close>

lemma create_button_has_name:
  "has_name p \<Longrightarrow>
   create_button icon self p insts =
     Inr \<lparr>app_identifier = p, desktop_app = find_app self p, instances = insts\<rparr>"
  by (cases p) (auto simp: create_button_def get_app_icon_def Let_def split: option.splits)

lemma create_button_Inr:
  "create_button icon self p insts = Inr b \<Longrightarrow>
   b = \<lparr>app_identifier = p, desktop_app = find_app self p, instances = insts\<rparr>"
  by (auto simp: create_button_def Let_def split: sum.splits)

lemma create_button_Inl:
  "create_button icon self p insts = Inl e \<Longrightarrow> e = KeyError \<and> \<not> has_name p"
  by (cases p)
    (auto simp: create_button_def get_app_icon_def Let_def split: sum.splits option.splits if_splits)

lemma has_name_create_app_identifier: "has_name (create_app_identifier self class_name insts)"
  by (auto simp: create_app_identifier_def Let_def app_data_of_def split: option.splits)

lemma pin_button_Inr:
  assumes "pin_button icon self so rw acc p = Inr acc'"
  shows "fst acc' = fst acc @ [\<lparr>app_identifier = p, desktop_app = find_app self p,
                               instances = fst (find_instances_for_app self so p rw)\<rparr>]"
    and "snd acc \<subseteq> snd acc'"
    and "find_instances_for_app self so p rw = (grp, Some key) \<Longrightarrow> key \<noteq> [] \<Longrightarrow>
         key \<in> snd acc' \<and> normalize_window_class key \<in> snd acc'"
  using assms
  by (auto simp: pin_button_def Let_def split: prod.splits sum.splits option.splits if_splits
      dest: create_button_Inr)

lemma pin_button_Inl:
  "pin_button icon self so rw acc p = Inl e \<Longrightarrow> e = KeyError \<and> \<not> has_name p"
  by (auto simp: pin_button_def Let_def split: prod.splits sum.splits dest: create_button_Inl)

lemma pin_button_has_name:
  "has_name p \<Longrightarrow> \<exists>acc'. pin_button icon self so rw acc p = Inr acc'"
  by (cases "pin_button icon self so rw acc p") (auto dest: pin_button_Inl)

lemma pin_buttons_Inr:
  assumes "pin_buttons icon self so rw acc ps = Inr acc'"
  shows "fst acc' = fst acc @ map (\<lambda>p. \<lparr>app_identifier = p, desktop_app = find_app self p,
                               instances = fst (find_instances_for_app self so p rw)\<rparr>) ps
       \<and> snd acc \<subseteq> snd acc'
       \<and> (\<forall>p \<in> set ps. \<forall>grp key. find_instances_for_app self so p rw = (grp, Some key) \<longrightarrow>
             key \<noteq> [] \<longrightarrow> key \<in> snd acc' \<and> normalize_window_class key \<in> snd acc')"
  using assms
proof (induction ps arbitrary: acc)
  case Nil
  then show ?case by simp
next
  case (Cons p ps)
  from Cons.prems obtain acc1 where
    a1: "pin_button icon self so rw acc p = Inr acc1" and
    a2: "pin_buttons icon self so rw acc1 ps = Inr acc'"
    by (auto split: sum.splits)
  note ih = Cons.IH [OF a2]
  have f: "fst acc' = fst acc @ map (\<lambda>p. \<lparr>app_identifier = p, desktop_app = find_app self p,
                               instances = fst (find_instances_for_app self so p rw)\<rparr>) (p # ps)"
    using ih pin_button_Inr(1) [OF a1] by simp
  have s: "snd acc \<subseteq> snd acc'" using ih pin_button_Inr(2) [OF a1] by blast
  have u: "\<forall>q \<in> set (p # ps). \<forall>grp key. find_instances_for_app self so q rw = (grp, Some key) \<longrightarrow>
             key \<noteq> [] \<longrightarrow> key \<in> snd acc' \<and> normalize_window_class key \<in> snd acc'"
  proof (intro ballI allI impI)
    fix q grp key
    assume q: "q \<in> set (p # ps)"
      and m: "find_instances_for_app self so q rw = (grp, Some key)" and k: "key \<noteq> []"
    show "key \<in> snd acc' \<and> normalize_window_class key \<in> snd acc'"
    proof (cases "q = p")
      case True
      then have "key \<in> snd acc1 \<and> normalize_window_class key \<in> snd acc1"
        using pin_button_Inr(3) [OF a1] m k by blast
      then show ?thesis using ih by blast
    next
      case False
      then have "q \<in> set ps" using q by simp
      then show ?thesis using ih m k by blast
    qed
  qed
  show ?case using f s u by blast
qed

lemma pin_buttons_Inl:
  "pin_buttons icon self so rw acc ps = Inl e \<Longrightarrow> e = KeyError \<and> (\<exists>p \<in> set ps. \<not> has_name p)"
proof (induction ps arbitrary: acc)
  case Nil
  then show ?case by simp
next
  case (Cons p ps)
  show ?case
  proof (cases "pin_button icon self so rw acc p")
    case (Inl e')
    then show ?thesis using Cons.prems pin_button_Inl by fastforce
  next
    case (Inr acc1)
    then have "pin_buttons icon self so rw acc1 ps = Inl e" using Cons.prems by simp
    then show ?thesis using Cons.IH by auto
  qed
qed

lemma create_open_buttons_items:
  "create_open_buttons icon self rw used =
     Inr (map (\<lambda>item. \<lparr>app_identifier = create_app_identifier self (fst item) (snd item),
                         desktop_app = find_app self (create_app_identifier self (fst item) (snd item)),
                         instances = snd item\<rparr>)
            (open_items rw used))"
proof (induction rw)
  case Nil
  then show ?case by (simp add: open_items_def)
next
  case (Cons item rw)
  obtain class_name insts where item: "item = (class_name, insts)" by (cases item)
  have b: "create_button icon self (create_app_identifier self class_name insts) insts =
      Inr \<lparr>app_identifier = create_app_identifier self class_name insts,
           desktop_app = find_app self (create_app_identifier self class_name insts),
           instances = insts\<rparr>"
    by (rule create_button_has_name) (rule has_name_create_app_identifier)
  show ?case using Cons.IH item b by (simp add: open_items_def)
qed

lemma pin_buttons_has_name:
  assumes "\<forall>p \<in> set ps. has_name p"
  shows "pin_buttons icon self so rw acc ps =
           Inr (fst acc @ map (\<lambda>p. \<lparr>app_identifier = p, desktop_app = find_app self p,
                                 instances = fst (find_instances_for_app self so p rw)\<rparr>) ps,
                snd (projr (pin_buttons icon self so rw acc ps)))"
proof (cases "pin_buttons icon self so rw acc ps")
  case (Inl e)
  then show ?thesis using assms pin_buttons_Inl by blast
next
  case (Inr acc')
  then show ?thesis using pin_buttons_Inr [OF Inr] by (cases acc') simp
qed

text \<open>When every identifier that matches at all matches the same group, the order of the
  identifiers is immaterial.\<close>

lemma match_identifiers_any_order:
  assumes "\<forall>i \<in> set ids. match_identifier rw i = None \<or> match_identifier rw i = Some r"
    and "\<exists>i \<in> set ids. match_identifier rw i = Some r"
  shows "match_identifiers rw ids = (fst r, Some (snd r))"
  using assms
proof (induction ids)
  case Nil
  then show ?case by simp
next
  case (Cons i ids)
  show ?case
  proof (cases "match_identifier rw i")
    case None
    then have "\<exists>j \<in> set ids. match_identifier rw j = Some r" using Cons.prems(2) by auto
    then show ?thesis using None Cons by simp
  next
    case (Some a)
    then have "a = r" using Cons.prems(1) by auto
    then show ?thesis using Some by (simp split: prod.splits)
  qed
qed

text \<open>Code::Blocks and Visual Studio Code pinned, one Code::Blocks window open: whatever
  the order in which Python goes through the sets of identifiers, and whichever
  descriptors have an icon, both pinned buttons receive the window.\<close>

lemma shared_group_any_order:
  assumes so: "\<And>xs. set (so xs) = set xs"
  shows "update_dock icon so [codeblocks, vscode] (Reply [win ''0x1'' ''codeblocks''])
     [Structured (app_data_of codeblocks), Structured (app_data_of vscode)]
   = Inr [Button \<lparr>app_identifier = Structured (app_data_of codeblocks),
                   desktop_app = Some codeblocks,
                   instances = [win ''0x1'' ''codeblocks'']\<rparr>,
          Button \<lparr>app_identifier = Structured (app_data_of vscode),
                   desktop_app = Some vscode,
                   instances = [win ''0x1'' ''codeblocks'']\<rparr>]"
proof -
  define self where "self = \<lparr>all_apps = [codeblocks, vscode],
     app_identifiers = [(''codeblocks'', codeblocks), (''code::blocks ide'', codeblocks),
       (''code'', vscode), (''visual studio code'', vscode)]\<rparr>"
  have built: "update_app_map [codeblocks, vscode] = Inr self"
    unfolding self_def by code_simp
  have rw: "build_running_windows [win ''0x1'' ''codeblocks''] = one_window"
    by code_simp
  have fa1: "find_app self (Structured (app_data_of codeblocks)) = Some codeblocks"
    unfolding self_def by code_simp
  have fa2: "find_app self (Structured (app_data_of vscode)) = Some vscode"
    unfolding self_def by code_simp
  let ?ids1 = "[''/usr/bin/codeblocks'', ''codeblocks %f'', ''codeblocks'', ''code::blocks ide'',
     ''codeblocks'', ''codeblocks'', ''codeblocks'', ''code::blocks ide'']"
  let ?ids2 = "[''code'', ''/usr/bin/code'', ''code %f'', ''code'', ''visual studio code'',
     ''code'', ''code'', ''code'', ''code'', ''visual studio code'']"
  have g1: "get_possible_identifiers so (Structured (app_data_of codeblocks)) (Some codeblocks)
      = so ?ids1"
    unfolding get_possible_identifiers_def
    by (rule arg_cong [where f = so]) code_simp
  have g2: "get_possible_identifiers so (Structured (app_data_of vscode)) (Some vscode)
      = so ?ids2"
    unfolding get_possible_identifiers_def
    by (rule arg_cong [where f = so]) code_simp
  have m1: "\<forall>i \<in> set ?ids1. match_identifier one_window i = None \<or>
      match_identifier one_window i = Some ([win ''0x1'' ''codeblocks''], ''codeblocks'')"
    by code_simp
  have e1: "\<exists>i \<in> set ?ids1.
      match_identifier one_window i = Some ([win ''0x1'' ''codeblocks''], ''codeblocks'')"
    by code_simp
  have m2: "\<forall>i \<in> set ?ids2. match_identifier one_window i = None \<or>
      match_identifier one_window i = Some ([win ''0x1'' ''codeblocks''], ''codeblocks'')"
    by code_simp
  have e2: "\<exists>i \<in> set ?ids2.
      match_identifier one_window i = Some ([win ''0x1'' ''codeblocks''], ''codeblocks'')"
    by code_simp
  have f1: "find_instances_for_app self so (Structured (app_data_of codeblocks)) one_window
      = ([win ''0x1'' ''codeblocks''], Some ''codeblocks'')"
    unfolding find_instances_for_app_def fa1 g1
    using match_identifiers_any_order [of "so ?ids1" one_window
        "([win ''0x1'' ''codeblocks''], ''codeblocks'')"] m1 e1
    by (simp only: so fst_conv snd_conv)
  have f2: "find_instances_for_app self so (Structured (app_data_of vscode)) one_window
      = ([win ''0x1'' ''codeblocks''], Some ''codeblocks'')"
    unfolding find_instances_for_app_def fa2 g2
    using match_identifiers_any_order [of "so ?ids2" one_window
        "([win ''0x1'' ''codeblocks''], ''codeblocks'')"] m2 e2
    by (simp only: so fst_conv snd_conv)
  have n: "normalize_window_class ''codeblocks'' = ''codeblocks''" by code_simp
  have h1: "has_name (Structured (app_data_of codeblocks))" by (simp add: app_data_of_def)
  have h2: "has_name (Structured (app_data_of vscode))" by (simp add: app_data_of_def)
  have cpb: "create_pinned_buttons icon self so
        [Structured (app_data_of codeblocks), Structured (app_data_of vscode)] one_window
    = Inr ([\<lparr>app_identifier = Structured (app_data_of codeblocks),
              desktop_app = Some codeblocks, instances = [win ''0x1'' ''codeblocks'']\<rparr>,
            \<lparr>app_identifier = Structured (app_data_of vscode),
              desktop_app = Some vscode, instances = [win ''0x1'' ''codeblocks'']\<rparr>],
           {''codeblocks''})"
    by (simp add: create_pinned_buttons_def pin_button_def f1 f2 n fa1 fa2
        create_button_has_name [OF h1] create_button_has_name [OF h2] del: find_app.simps)
  have cob: "create_open_buttons icon self one_window {''codeblocks''} = Inr []"
    by (simp add: one_window_def)
  have "reconcile icon self so
      [Structured (app_data_of codeblocks), Structured (app_data_of vscode)] one_window
    = Inr [Button \<lparr>app_identifier = Structured (app_data_of codeblocks),
                   desktop_app = Some codeblocks,
                   instances = [win ''0x1'' ''codeblocks'']\<rparr>,
          Button \<lparr>app_identifier = Structured (app_data_of vscode),
                   desktop_app = Some vscode,
                   instances = [win ''0x1'' ''codeblocks'']\<rparr>]"
    by (simp add: reconcile_def cpb cob combine_buttons_def)
  then show ?thesis by (simp add: update_dock_def built rw)
qed




text \<open>
  Claim C2: for every pinned-record list and every live-window grouping, the reconciled
  children are the pinned buttons, one for each pinned record in the order of the records,
  then a separator exactly when there are pinned records and unpinned buttons, then the
  unpinned buttons, whose window groups are those of the keys outside the used classes in
  the order of the grouping. This is so of every pass that returns; the pass returns for
  every list of pinned records that are strings or dictionaries with the key \<^verbatim>\<open>name\<close>
  (such are all the records the dock writes), and the one exception that can leave it is
  the KeyError of the icon lookup at a pinned dictionary without that key.
\<close>

theorem reconcile_order:
  "(\<forall>children. reconcile icon self so pinned rw = Inr children \<longrightarrow>
      (\<exists>pbs used obs.
          create_pinned_buttons icon self so pinned rw = Inr (pbs, used)
        \<and> children = map Button pbs @
                       (if pinned \<noteq> [] \<and> obs \<noteq> [] then [Separator] else []) @
                       map Button obs
        \<and> map app_identifier pbs = pinned
        \<and> map instances obs = map snd (open_items rw used)))
   \<and> ((\<forall>p \<in> set pinned. has_name p) \<longrightarrow>
        (\<exists>children. reconcile icon self so pinned rw = Inr children))
   \<and> (\<forall>e. reconcile icon self so pinned rw = Inl e \<longrightarrow>
        e = KeyError \<and> (\<exists>p \<in> set pinned. \<not> has_name p))"
proof -
  have one: "\<exists>pbs used obs.
          create_pinned_buttons icon self so pinned rw = Inr (pbs, used)
        \<and> children = map Button pbs @
                       (if pinned \<noteq> [] \<and> obs \<noteq> [] then [Separator] else []) @
                       map Button obs
        \<and> map app_identifier pbs = pinned
        \<and> map instances obs = map snd (open_items rw used)"
    if r: "reconcile icon self so pinned rw = Inr children" for children
  proof -
    from r    obtain pbs used where
      c: "create_pinned_buttons icon self so pinned rw = Inr (pbs, used)"
      by (auto simp: reconcile_def split: sum.splits)
  let ?obs = "map (\<lambda>item. \<lparr>app_identifier = create_app_identifier self (fst item) (snd item),
                         desktop_app = find_app self (create_app_identifier self (fst item) (snd item)),
                         instances = snd item\<rparr>) (open_items rw used)"
  have ch: "children = combine_buttons pbs ?obs"
    using r c by (simp add: reconcile_def create_open_buttons_items)
  have ids: "map app_identifier pbs = pinned"
    using pin_buttons_Inr [OF c [unfolded create_pinned_buttons_def]] by (simp add: comp_def)
  then have "length pbs = length pinned" by (metis length_map)
  then have ne: "(pbs \<noteq> []) = (pinned \<noteq> [])" by auto
  have "children = map Button pbs @
      (if pinned \<noteq> [] \<and> ?obs \<noteq> [] then [Separator] else []) @ map Button ?obs"
    using ch ne by (simp add: combine_buttons_def)
  moreover have "map instances ?obs = map snd (open_items rw used)" by (simp add: comp_def)
  ultimately show ?thesis using c ids by blast
  qed
  have two: "\<exists>children. reconcile icon self so pinned rw = Inr children"
    if wf: "\<forall>p \<in> set pinned. has_name p"
  proof (cases "create_pinned_buttons icon self so pinned rw")
    case (Inl e)
    then show ?thesis using wf pin_buttons_Inl by (fastforce simp: create_pinned_buttons_def)
  next
    case (Inr acc)
    then show ?thesis
      by (cases acc) (simp add: reconcile_def create_open_buttons_items)
  qed
  have three: "e = KeyError \<and> (\<exists>p \<in> set pinned. \<not> has_name p)"
    if r: "reconcile icon self so pinned rw = Inl e" for e
  proof -
    have "create_pinned_buttons icon self so pinned rw = Inl e"
      using r by (auto simp: reconcile_def create_open_buttons_items split: sum.splits)
    then show ?thesis using pin_buttons_Inl by (simp add: create_pinned_buttons_def)
  qed
  show ?thesis using one two three by blast
qed


theorem reconcile_order_witness:
  "reconcile (\<lambda>app. False) code_dock remdups
     [Structured (app_data_of codeblocks), Structured (app_data_of code_oss)]
     [(''codeblocks'', [win ''0x1'' ''codeblocks'']), (''kitty'', [win ''0x2'' ''kitty''])]
   = Inr [Button \<lparr>app_identifier = Structured (app_data_of codeblocks),
                   desktop_app = Some codeblocks,
                   instances = [win ''0x1'' ''codeblocks'']\<rparr>,
          Button \<lparr>app_identifier = Structured (app_data_of code_oss),
                   desktop_app = Some code_oss,
                   instances = []\<rparr>,
          Separator,
          Button \<lparr>app_identifier = Bare ''kitty'', desktop_app = None,
                   instances = [win ''0x2'' ''kitty'']\<rparr>] \<and>
   reconcile (\<lambda>app. False) code_dock remdups [Structured [(''window_class'', Some ''zzz'')]] []
     = Inl KeyError"
proof -
  have r: "reconcile (\<lambda>app. False) code_dock remdups
     [Structured (app_data_of codeblocks), Structured (app_data_of code_oss)]
     [(''codeblocks'', [win ''0x1'' ''codeblocks'']), (''kitty'', [win ''0x2'' ''kitty''])]
   = Inr [Button \<lparr>app_identifier = Structured (app_data_of codeblocks),
                   desktop_app = Some codeblocks,
                   instances = [win ''0x1'' ''codeblocks'']\<rparr>,
          Button \<lparr>app_identifier = Structured (app_data_of code_oss),
                   desktop_app = Some code_oss,
                   instances = []\<rparr>,
          Separator,
          Button \<lparr>app_identifier = Bare ''kitty'', desktop_app = None,
                   instances = [win ''0x2'' ''kitty'']\<rparr>]"
    by code_simp
  have k: "reconcile (\<lambda>app. False) code_dock remdups
      [Structured [(''window_class'', Some ''zzz'')]] [] = Inl KeyError"
    by code_simp
  have w: "\<forall>p \<in> set [Structured (app_data_of codeblocks), Structured (app_data_of code_oss)].
      has_name p"
    by (simp add: app_data_of_def)
  show ?thesis
    using reconcile_order [of "\<lambda>app. False" code_dock remdups
        "[Structured (app_data_of codeblocks), Structured (app_data_of code_oss)]"
        "[(''codeblocks'', [win ''0x1'' ''codeblocks'']), (''kitty'', [win ''0x2'' ''kitty''])]"]
      reconcile_order [of "\<lambda>app. False" code_dock remdups
        "[Structured [(''window_class'', Some ''zzz'')]]" "[]"] r k w
    by simp
qed

text \<open>The example of the specification: two pinned records, of which the first is
  running, and one running class that is not pinned.\<close>

lemma reconcile_example:
  "update_dock (\<lambda>app. False) remdups [codeblocks, code_oss]
     (Reply [win ''0x1'' ''codeblocks'', win ''0x2'' ''kitty''])
     [Structured (app_data_of codeblocks), Structured (app_data_of code_oss)]
   = Inr [Button \<lparr>app_identifier = Structured (app_data_of codeblocks),
                   desktop_app = Some codeblocks,
                   instances = [win ''0x1'' ''codeblocks'']\<rparr>,
          Button \<lparr>app_identifier = Structured (app_data_of code_oss),
                   desktop_app = Some code_oss,
                   instances = []\<rparr>,
          Separator,
          Button \<lparr>app_identifier = Bare ''kitty'', desktop_app = None,
                   instances = [win ''0x2'' ''kitty'']\<rparr>]"
  by code_simp

text \<open>A pinned dictionary without the key \<^verbatim>\<open>name\<close> that resolves to no descriptor: the
  icon lookup raises KeyError and the pass sets no children.\<close>

lemma update_dock_raises_without_name:
  "update_dock (\<lambda>app. True) remdups [codeblocks, code_oss] (Reply [])
     [Structured [(''window_class'', Some ''zzz'')]]
   = Inl KeyError"
  by code_simp

subsection \<open>Facts about the compositor query\<close>

text \<open>
  Claim C7, as stated, fails: \<^verbatim>\<open>get_clients\<close> catches JSONDecodeError only. A reply
  that is not UTF-8 makes \<^verbatim>\<open>decode\<close> raise UnicodeDecodeError, which is not a
  JSONDecodeError: it leaves \<^verbatim>\<open>get_clients\<close>, and \<^verbatim>\<open>update_dock\<close> with it.
\<close>

theorem get_clients_raises:
  "get_clients ReplyNotUtf8 = Inl UnicodeDecodeError \<and>
   update_dock (\<lambda>app. False) remdups [codeblocks, code_oss] ReplyNotUtf8 [Bare ''codeblocks'']
     = Inl UnicodeDecodeError"
  by code_simp

text \<open>
  Claim C7, amended: for every reply that is not JSON text, \<^verbatim>\<open>get_clients\<close> returns the
  empty list instead of raising, and the reconciliation pass then shows every pinned
  record with no running instance and nothing else, provided that the catalog can be
  indexed and that every pinned dictionary has the key \<^verbatim>\<open>name\<close>.
\<close>

theorem get_clients_not_json:
  assumes "update_app_map catalog = Inr self"
    and "\<forall>p \<in> set pinned. has_name p"
  shows "get_clients ReplyNotJson = Inr [] \<and>
         update_dock icon so catalog ReplyNotJson pinned =
           Inr (map (\<lambda>p. Button \<lparr>app_identifier = p, desktop_app = find_app self p,
                                   instances = []\<rparr>) pinned)"
proof -
  have m: "match_identifiers [] ids = ([], None)" for ids
    by (induction ids) (simp_all add: match_identifier_def Let_def)
  have f: "find_instances_for_app self so p [] = ([], None)" for p
    by (simp add: find_instances_for_app_def m)
  obtain used where c: "create_pinned_buttons icon self so pinned [] =
      Inr (map (\<lambda>p. \<lparr>app_identifier = p, desktop_app = find_app self p, instances = []\<rparr>) pinned,
           used)"
    using pin_buttons_has_name [OF assms(2), of icon self so "[]" "([], {})"]
    by (simp add: create_pinned_buttons_def f)
  have "reconcile icon self so pinned [] =
      Inr (map (\<lambda>p. Button \<lparr>app_identifier = p, desktop_app = find_app self p,
                              instances = []\<rparr>) pinned)"
    by (simp add: reconcile_def c combine_buttons_def comp_def)
  then show ?thesis using assms(1) by (simp add: update_dock_def build_running_windows_def)
qed

theorem get_clients_not_json_witness:
  "update_app_map [codeblocks, code_oss] = Inr code_dock \<and>
   update_dock (\<lambda>app. False) remdups [codeblocks, code_oss] ReplyNotJson [Bare ''codeblocks'']
     = Inr [Button \<lparr>app_identifier = Bare ''codeblocks'', desktop_app = Some codeblocks,
                     instances = []\<rparr>]"
proof -
  have f: "find_app code_dock (Bare ''codeblocks'') = Some codeblocks" by code_simp
  have w: "\<forall>p \<in> set [Bare ''codeblocks'']. has_name p" by simp
  show ?thesis
    using get_clients_not_json [OF code_dock_built w, of "\<lambda>app. False" remdups]
      code_dock_built f
    by simp
qed

subsection \<open>Facts about the pinned configuration\<close>

text \<open>A list of bare strings is migrated entry by entry: a string that is the name of an
  application of the catalog becomes the dictionary of that application, any other string
  \<open>s\<close> becomes \<^verbatim>\<open>{"name": s}\<close>; length and order are kept.\<close>

lemma migrate_entries_strings:
  "migrate_entries app_map (map Bare ss) =
     Inr (map (\<lambda>s. case map_of app_map s of
                      Some app \<Rightarrow> Structured (app_data_of app)
                    | None \<Rightarrow> Structured [(''name'', Some s)]) ss)"
  by (induction ss) (auto simp: migrate_entry_def split: option.splits)

lemma read_config_migrates_strings:
  assumes "ss \<noteq> []" and "content fs = Document config" and "pinned_apps config = Some (map Bare ss)"
  shows "read_config catalog fs =
     Inr (config\<lparr>pinned_apps := Some (map (\<lambda>s. case map_of (app_map_of catalog) s of
                      Some app \<Rightarrow> Structured (app_data_of app)
                    | None \<Rightarrow> Structured [(''name'', Some s)]) ss)\<rparr>)"
proof -
  obtain s rest where "ss = s # rest" using assms(1) by (cases ss) auto
  then have "needs_migration config" using assms(3) by (simp add: needs_migration_def)
  then show ?thesis
    using assms(2,3) by (simp add: read_config_def migrate_config_def migrate_entries_strings)
qed

text \<open>
  Claim C6 and the code part at a list that starts with a bare string and holds a
  dictionary further on, such as \<^verbatim>\<open>update_pinned_apps\<close> writes when a running window of
  no known application is dragged before pinned applications. The claim has every entry
  migrated and the list keep its length; the code raises TypeError at the dictionary, and
  the exception is not among those \<^verbatim>\<open>_read_config\<close> catches.
\<close>

theorem migrate_mixed_list_raises:
  "read_config [codeblocks, code_oss]
     \<lparr>content = Document \<lparr>pinned_apps =
          Some [Bare ''kitty'', Structured (app_data_of codeblocks)]\<rparr>,
      writable = True\<rparr>
   = Inl TypeError"
  by code_simp

text \<open>
  Claim C8: for every list of structured records (no bare string among them), a save that
  reports success followed by a reload gives back the configuration that was saved, whose
  pinned list is the list of records, unchanged.
\<close>

theorem save_then_reload:
  assumes "fst (save (set_pinned_apps config records) fs)"
    and "\<forall>e \<in> set records. \<exists>d. e = Structured d"
  shows "\<exists>config'. reload catalog (snd (save (set_pinned_apps config records) fs))
                     = Inr config'
                 \<and> config' = set_pinned_apps config records
                 \<and> get_pinned_apps config' = records"
proof -
  have w: "writable fs" using assms(1) by (simp add: save_def split: if_splits)
  have "\<not> needs_migration (set_pinned_apps config records)"
  proof (cases records)
    case Nil
    then show ?thesis by (simp add: needs_migration_def set_pinned_apps_def)
  next
    case (Cons e rest)
    then obtain d where "e = Structured d" using assms(2) by auto
    then show ?thesis using Cons by (simp add: needs_migration_def set_pinned_apps_def)
  qed
  then show ?thesis
    using w by (simp add: reload_def read_config_def save_def get_pinned_apps_def set_pinned_apps_def)
qed

theorem save_then_reload_witness:
  "reload [codeblocks]
     (snd (save (set_pinned_apps \<lparr>pinned_apps = Some []\<rparr> [Structured (app_data_of codeblocks)])
             \<lparr>content = Missing, writable = True\<rparr>))
   = Inr \<lparr>pinned_apps = Some [Structured (app_data_of codeblocks)]\<rparr>"
proof -
  have ok: "fst (save (set_pinned_apps \<lparr>pinned_apps = Some []\<rparr>
                        [Structured (app_data_of codeblocks)])
                   \<lparr>content = Missing, writable = True\<rparr>)"
    by (simp add: save_def)
  have st: "\<forall>e \<in> set [Structured (app_data_of codeblocks)]. \<exists>d. e = Structured d"
    by simp
  show ?thesis
    using save_then_reload [OF ok st, of "[codeblocks]"] by (simp add: set_pinned_apps_def)
qed

subsection \<open>Facts about occlusion\<close>

lemma check_keeps:
  "always_show (snd (check_occlusion_state s)) = always_show s \<and>
   forced_occlusion (snd (check_occlusion_state s)) = forced_occlusion s \<and>
   saved_always_show (snd (check_occlusion_state s)) = saved_always_show s \<and>
   integrated_mode (snd (check_occlusion_state s)) = integrated_mode s"
  by (simp add: check_occlusion_state_def reveal_def conceal_def)

text \<open>
  Claim C9: for every starting state, \<^verbatim>\<open>force_occlusion()\<close> followed at once by
  \<^verbatim>\<open>restore_from_occlusion()\<close> leaves \<^verbatim>\<open>always_show\<close> at the value it had before. On a
  dock window of its own the forced flag is then clear, the saved value is gone, and the
  state is the one that a single run of \<^verbatim>\<open>check_occlusion_state\<close> leaves, started with
  the flag clear, \<^verbatim>\<open>always_show\<close> as before, and the revealer as \<^verbatim>\<open>force_occlusion\<close>
  left it. An integrated dock has no revealer and no occlusion: both calls return at once
  and the state is as it was.
\<close>

theorem force_then_restore:
  "always_show (restore_from_occlusion (force_occlusion s)) = always_show s \<and>
   (\<not> integrated_mode s \<longrightarrow>
      \<not> forced_occlusion (restore_from_occlusion (force_occlusion s)) \<and>
      saved_always_show (restore_from_occlusion (force_occlusion s)) = None \<and>
      restore_from_occlusion (force_occlusion s) =
        snd (check_occlusion_state
               (s\<lparr>reveal_child := (is_mouse_over_dock_area s \<and> reveal_child s),
                   forced_occlusion := False, saved_always_show := None\<rparr>))) \<and>
   (integrated_mode s \<longrightarrow> restore_from_occlusion (force_occlusion s) = s)"
proof (cases "integrated_mode s")
  case True
  then show ?thesis by (simp add: force_occlusion_def restore_from_occlusion_def)
next
  case False
  have eq: "restore_from_occlusion (force_occlusion s) =
        snd (check_occlusion_state
               (s\<lparr>reveal_child := (is_mouse_over_dock_area s \<and> reveal_child s),
                   forced_occlusion := False, saved_always_show := None\<rparr>))"
    using False
    by (cases "is_mouse_over_dock_area s")
      (simp_all add: force_occlusion_def restore_from_occlusion_def Let_def)
  show ?thesis using False by (simp add: eq check_keeps)
qed


theorem force_then_restore_witness:
  "restore_from_occlusion (force_occlusion shown_dock) = shown_dock \<and>
   reveal_child (force_occlusion shown_dock) = False \<and>
   always_show (force_occlusion shown_dock) = False \<and>
   restore_from_occlusion (force_occlusion integrated_dock) = integrated_dock"
proof -
  have n: "\<not> integrated_mode shown_dock" by (simp add: shown_dock_def)
  have i: "integrated_mode integrated_dock" by (simp add: integrated_dock_def)
  have c: "snd (check_occlusion_state
                  (shown_dock\<lparr>reveal_child :=
                       (is_mouse_over_dock_area shown_dock \<and> reveal_child shown_dock),
                     forced_occlusion := False, saved_always_show := None\<rparr>)) = shown_dock"
    by (simp add: shown_dock_def check_occlusion_state_def reveal_def)
  have f: "reveal_child (force_occlusion shown_dock) = False \<and>
           always_show (force_occlusion shown_dock) = False"
    by (simp add: shown_dock_def force_occlusion_def)
  show ?thesis
    using force_then_restore [of shown_dock] force_then_restore [of integrated_dock] n i c f
    by simp
qed

end
